theory Spec2Isabelle
  imports Main "HOL-Library.AList"
begin

section \<open>Python values and sequence primitives\<close>

text \<open>
  The values that cross the agent's boundaries: what \<open>json.loads\<close> returns, what a tool's
  callable receives and returns. \<open>PObj cls s\<close> is an object that the JSON encoder does not
  know (a set, a tuple used as a key, a datetime, ...): \<open>cls\<close> is its class name and
  \<open>s\<close> the text \<open>str\<close> gives for it. A \<open>dict\<close> is an association list in insertion
  order. Numbers are integers; floating point numbers are outside the embedding.
\<close>

datatype pyval =
    PNone
  | PBool bool
  | PInt int
  | PStr string
  | PList "pyval list"
  | PDict "(pyval \<times> pyval) list"
  | PObj string string

text \<open>\<open>xs[i:]\<close> and \<open>xs[:n]\<close>: a negative bound counts from the end and is clamped at 0.\<close>

definition py_slice_from :: "'a list \<Rightarrow> int \<Rightarrow> 'a list" where
  "py_slice_from xs i =
     (if 0 \<le> i then drop (nat i) xs else drop (length xs - nat (- i)) xs)"

definition py_slice_to :: "'a list \<Rightarrow> int \<Rightarrow> 'a list" where
  "py_slice_to xs n =
     (if 0 \<le> n then take (nat n) xs else take (length xs - nat (- n)) xs)"

text \<open>\<open>str(n)\<close> for an integer: decimal digits, with a minus sign when negative.\<close>

fun show_nat :: "nat \<Rightarrow> string" where
  "show_nat n =
     (if n < 10 then [''0123456789'' ! n]
      else show_nat (n div 10) @ [''0123456789'' ! (n mod 10)])"

declare show_nat.simps [simp del]

definition show_int :: "int \<Rightarrow> string" where
  "show_int i = (if i < 0 then CHR ''-'' # show_nat (nat (- i)) else show_nat (nat i))"

section \<open>Conversation history (agent/conversation.py)\<close>

datatype role = System | User | Assistant | Tool

text \<open>
  A tool call as \<open>_parse_tool_calls\<close> builds it:
  \<open>{"id": ..., "type": "function", "function": {"name": ..., "arguments": ...}}\<close>.
  The name and the argument payload are strings in the native format; in the JSON text
  fallback they are whatever the parsed object holds.
\<close>

record tool_call =
  tc_id :: string
  tc_name :: pyval
  tc_arguments :: pyval

text \<open>A message dictionary; a key the dictionary does not have is \<open>None\<close> here.\<close>

record message =
  msg_role :: role
  msg_content :: "string option"
  msg_tool_calls :: "tool_call list option"
  msg_tool_call_id :: "string option"
  msg_name :: "pyval option"

record conversation_history =
  messages :: "message list"
  max_messages :: int

definition system_message :: "string \<Rightarrow> message" where
  "system_message p =
     \<lparr>msg_role = System, msg_content = Some p, msg_tool_calls = None,
      msg_tool_call_id = None, msg_name = None\<rparr>"

definition user_message :: "string \<Rightarrow> message" where
  "user_message c =
     \<lparr>msg_role = User, msg_content = Some c, msg_tool_calls = None,
      msg_tool_call_id = None, msg_name = None\<rparr>"

definition assistant_message :: "string \<Rightarrow> message" where
  "assistant_message c =
     \<lparr>msg_role = Assistant, msg_content = Some c, msg_tool_calls = None,
      msg_tool_call_id = None, msg_name = None\<rparr>"

definition tool_message :: "string \<Rightarrow> pyval \<Rightarrow> string \<Rightarrow> message" where
  "tool_message tcid nm c =
     \<lparr>msg_role = Tool, msg_content = Some c, msg_tool_calls = None,
      msg_tool_call_id = Some tcid, msg_name = Some nm\<rparr>"

text \<open>\<open>ConversationHistory.__init__\<close>: \<open>if system_prompt:\<close> skips \<open>None\<close> and the empty string.\<close>

definition ConversationHistory :: "string option \<Rightarrow> int \<Rightarrow> conversation_history" where
  "ConversationHistory system_prompt max_msgs =
     \<lparr>messages = (case system_prompt of
                     None \<Rightarrow> []
                   | Some p \<Rightarrow> if p = [] then [] else [system_message p]),
      max_messages = max_msgs\<rparr>"

definition trim_if_needed :: "conversation_history \<Rightarrow> conversation_history" where
  "trim_if_needed h =
     (if int (length (messages h)) \<le> max_messages h then h
      else
        let system = filter (\<lambda>m. msg_role m = System) (messages h);
            non_system = filter (\<lambda>m. msg_role m \<noteq> System) (messages h);
            keep = max_messages h - int (length system)
        in h\<lparr>messages := system @ py_slice_from non_system (- keep)\<rparr>)"

definition add_user_message :: "string \<Rightarrow> conversation_history \<Rightarrow> conversation_history" where
  "add_user_message c h = trim_if_needed (h\<lparr>messages := messages h @ [user_message c]\<rparr>)"

definition add_assistant_message :: "string \<Rightarrow> conversation_history \<Rightarrow> conversation_history" where
  "add_assistant_message c h =
     trim_if_needed (h\<lparr>messages := messages h @ [assistant_message c]\<rparr>)"

definition add_assistant_tool_calls :: "message \<Rightarrow> conversation_history \<Rightarrow> conversation_history" where
  "add_assistant_tool_calls m h = trim_if_needed (h\<lparr>messages := messages h @ [m]\<rparr>)"

definition add_tool_result ::
  "string \<Rightarrow> pyval \<Rightarrow> string \<Rightarrow> conversation_history \<Rightarrow> conversation_history" where
  "add_tool_result tcid nm c h =
     trim_if_needed (h\<lparr>messages := messages h @ [tool_message tcid nm c]\<rparr>)"

definition clear :: "conversation_history \<Rightarrow> conversation_history" where
  "clear h = h\<lparr>messages := filter (\<lambda>m. msg_role m = System) (messages h)\<rparr>"

text \<open>
  \<open>get_last_assistant_content\<close>: the newest assistant message whose content is truthy,
  that is neither \<open>None\<close> nor the empty string.
\<close>

fun first_assistant_content :: "message list \<Rightarrow> string option" where
  "first_assistant_content [] = None"
| "first_assistant_content (m # ms) =
     (if msg_role m = Assistant \<and> msg_content m \<noteq> None \<and> msg_content m \<noteq> Some []
      then msg_content m else first_assistant_content ms)"

definition get_last_assistant_content :: "conversation_history \<Rightarrow> string option" where
  "get_last_assistant_content h = first_assistant_content (rev (messages h))"

section \<open>Strings as the parser uses them\<close>

text \<open>
  A \<open>string\<close> is the list of a text's code points, for texts whose code points are below
  256. \<open>py_isspace\<close> lists the code points below 256 that \<open>str.isspace\<close> accepts,
  and \<open>py_strip\<close> is \<open>str.strip()\<close>.
\<close>

definition py_isspace :: "char \<Rightarrow> bool" where
  "py_isspace c \<longleftrightarrow>
     c \<in> set [CHR 0x09, CHR 0x0A, CHR 0x0B, CHR 0x0C, CHR 0x0D, CHR 0x1C, CHR 0x1D,
               CHR 0x1E, CHR 0x1F, CHR 0x20, CHR 0x85, CHR 0xA0]"

definition py_strip :: "string \<Rightarrow> string" where
  "py_strip s = rev (dropWhile py_isspace (rev (dropWhile py_isspace s)))"

text \<open>\<open>s.find(c)\<close> and \<open>s.rfind(c)\<close> for a single character: an index, or \<open>-1\<close>.\<close>

definition py_find :: "char \<Rightarrow> string \<Rightarrow> int" where
  "py_find c s = (if c \<in> set s then int (length (takeWhile (\<lambda>x. x \<noteq> c) s)) else - 1)"

definition py_rfind :: "char \<Rightarrow> string \<Rightarrow> int" where
  "py_rfind c s =
     (if c \<in> set s
      then int (length s) - 1 - int (length (takeWhile (\<lambda>x. x \<noteq> c) (rev s)))
      else - 1)"

text \<open>\<open>s[i:j]\<close> for \<open>0 \<le> i\<close> and \<open>0 \<le> j\<close>, which the guard before its only use gives.\<close>

definition py_slice :: "'a list \<Rightarrow> int \<Rightarrow> int \<Rightarrow> 'a list" where
  "py_slice xs i j = take (nat (j - i)) (drop (nat i) xs)"

section \<open>The Python library the agent calls\<close>

text \<open>
  An exception has a class, the message that \<open>str(e)\<close> returns, and the exception that
  was being handled when it was raised (\<open>__context__\<close>), if any. The classes are those of
  \<open>exceptions.py\<close> that the agent raises, the interpreter's classes that its loop can
  meet, and \<open>OtherException\<close> for any further subclass of \<open>Exception\<close>.
  \<open>KeyboardInterrupt\<close> and \<open>SystemExit\<close> derive from \<open>BaseException\<close> only, so that
  \<open>except Exception\<close> lets them pass; \<open>JSONDecodeError\<close> derives from \<open>ValueError\<close>
  and \<open>MaxIterationsError\<close> from \<open>AgentError\<close>.
  The wording of the interpreter's own messages is abridged (the callee's name is left
  out).
\<close>

datatype exn_class =
    CompletionError
  | AgentError
  | MaxIterationsError
  | TypeError
  | IndexError
  | AttributeError
  | ValueError
  | JSONDecodeError
  | RecursionError
  | KeyboardInterrupt
  | SystemExit
  | OtherException string

datatype exn = Exn (exn_cls: exn_class) (exn_str: string) (exn_context: "exn option")

definition is_exception :: "exn_class \<Rightarrow> bool" where
  "is_exception c \<longleftrightarrow> c \<noteq> KeyboardInterrupt \<and> c \<noteq> SystemExit"

definition is_value_error :: "exn_class \<Rightarrow> bool" where
  "is_value_error c \<longleftrightarrow> c = ValueError \<or> c = JSONDecodeError"

text \<open>
  The functions of the interpreter and of the \<open>json\<close> module that the code calls are
  parameters of the model; \<open>Inl e\<close> is a call that raises \<open>e\<close>:
  \<^item> \<open>json_loads s\<close> is \<open>json.loads(s)\<close>;
  \<^item> \<open>json_dumps v\<close> is \<open>json.dumps(v)\<close>;
  \<^item> \<open>json_dumps_default_str v\<close> is \<open>json.dumps(v, default=str, indent=2)\<close>;
  \<^item> \<open>py_hash s\<close> is \<open>hash(s)\<close>, fixed within one interpreter process;
  \<^item> \<open>py_str v\<close> is \<open>str(v)\<close>.
\<close>

record pylib =
  json_loads :: "string \<Rightarrow> exn + pyval"
  json_dumps :: "pyval \<Rightarrow> exn + string"
  json_dumps_default_str :: "pyval \<Rightarrow> exn + string"
  py_hash :: "string \<Rightarrow> int"
  py_str :: "pyval \<Rightarrow> string"

fun class_name :: "pyval \<Rightarrow> string" where
  "class_name PNone = ''NoneType''"
| "class_name (PBool _) = ''bool''"
| "class_name (PInt _) = ''int''"
| "class_name (PStr _) = ''str''"
| "class_name (PList _) = ''list''"
| "class_name (PDict _) = ''dict''"
| "class_name (PObj cls _) = cls"

section \<open>Tools and the registry (agent/tool.py)\<close>

text \<open>
  A tool's callable takes the keyword arguments and either returns a value or raises
  an exception.
\<close>

datatype tool_outcome = Returns pyval | Raises exn

type_synonym kwargs = "(string \<times> pyval) list"

record tool =
  tool_name :: string
  tool_description :: string
  tool_parameters :: pyval
  tool_function :: "kwargs \<Rightarrow> tool_outcome"
  requires_browser :: bool

record openai_tool =
  fn_name :: string
  fn_description :: string
  fn_parameters :: pyval

definition to_openai_tool :: "tool \<Rightarrow> openai_tool" where
  "to_openai_tool t =
     \<lparr>fn_name = tool_name t, fn_description = tool_description t,
      fn_parameters = tool_parameters t\<rparr>"

text \<open>
  The body of \<open>Tool.execute\<close>, once the keyword arguments are bound. Its handler is
  \<open>except Exception\<close>: it turns an exception of such a class into the diagnostic string,
  whether the callable or the encoder raised it, and lets any other exception pass.
\<close>

definition execute_handler :: "tool \<Rightarrow> exn \<Rightarrow> exn + string" where
  "execute_handler t e =
     (if is_exception (exn_cls e)
      then Inr (''Error executing '' @ tool_name t @ '': '' @ exn_str e)
      else Inl e)"

definition execute :: "pylib \<Rightarrow> tool \<Rightarrow> kwargs \<Rightarrow> exn + string" where
  "execute lib t kw =
     (case tool_function t kw of
        Raises e \<Rightarrow> execute_handler t e
      | Returns (PStr s) \<Rightarrow> Inr s
      | Returns v \<Rightarrow>
          (case json_dumps_default_str lib v of
             Inr s \<Rightarrow> Inr s
           | Inl e \<Rightarrow> execute_handler t e))"

text \<open>
  The registry is a dictionary from names to tools, in insertion order; \<open>register\<close>
  overwrites an entry in place.
\<close>

type_synonym tool_registry = "(string \<times> tool) list"

definition register :: "tool \<Rightarrow> tool_registry \<Rightarrow> tool_registry" where
  "register t reg = AList.update (tool_name t) t reg"

definition list_tools :: "tool_registry \<Rightarrow> tool list" where
  "list_tools reg = map snd reg"

definition to_openai_tools :: "tool_registry \<Rightarrow> openai_tool list" where
  "to_openai_tools reg = map (\<lambda>(n, t). to_openai_tool t) reg"

text \<open>
  \<open>registry.get(tool_name)\<close>. The name of a fallback tool call is any decoded value: a
  list or a dictionary cannot be hashed, and no other value equals a registered name.
\<close>

definition registry_get :: "tool_registry \<Rightarrow> pyval \<Rightarrow> exn + tool option" where
  "registry_get reg nm =
     (case nm of
        PStr s \<Rightarrow> Inr (map_of reg s)
      | PList _ \<Rightarrow>
          Inl (Exn TypeError (''unhashable type: '' @ [CHR 0x27] @ ''list'' @ [CHR 0x27]) None)
      | PDict _ \<Rightarrow>
          Inl (Exn TypeError (''unhashable type: '' @ [CHR 0x27] @ ''dict'' @ [CHR 0x27]) None)
      | _ \<Rightarrow> Inr None)"

section \<open>The agent (agent/agent.py)\<close>

subsection \<open>The generation backend\<close>

text \<open>
  The request is the keyword arguments of \<open>client.chat.completions.create\<close>: the model,
  a copy of the history, and the tool schema when the registry is not empty (the
  temperature, a float handed through unchanged, is left out). The response is the list
  of its choices; each choice's message has an optional list of native tool calls and an
  optional text. The client is a function of its own state \<open>'s\<close>, so that a stub may
  answer each call differently; \<open>Inl e\<close> is a call that raises \<open>e\<close>.
\<close>

record request =
  req_model :: string
  req_messages :: "message list"
  req_tools :: "openai_tool list option"

record native_tool_call =
  ntc_id :: string
  ntc_name :: string
  ntc_arguments :: string

record completion_message =
  cm_content :: "string option"
  cm_tool_calls :: "native_tool_call list option"

type_synonym chat_completion = "completion_message list"

text \<open>
  What a run leaves behind besides the history: one event for each backend call, with
  the response or the exception, one for each call of an installed observer, and one for
  each entry into a tool's \<open>execute\<close>.
\<close>

datatype event =
    BackendReturned chat_completion
  | BackendRaised exn
  | OnToolStart pyval pyval
  | ToolExec string kwargs
  | OnToolEnd pyval string

fun is_backend_call :: "event \<Rightarrow> bool" where
  "is_backend_call (BackendReturned _) = True"
| "is_backend_call (BackendRaised _) = True"
| "is_backend_call _ = False"

definition backend_calls :: "event list \<Rightarrow> nat" where
  "backend_calls evs = length (filter is_backend_call evs)"

text \<open>
  The agent object. An observer (\<open>on_tool_start\<close>, \<open>on_tool_end\<close>) is an optional
  callable; its result is \<open>None\<close> when it returns and \<open>Some e\<close> when it raises \<open>e\<close>.
  \<open>max_result_length\<close> is the module constant \<open>AGENT_MAX_RESULT_LENGTH\<close>, an integer
  read from the environment (4000 by default).
\<close>

record 's agent =
  model :: string
  max_iterations :: int
  on_tool_start :: "(pyval \<Rightarrow> pyval \<Rightarrow> exn option) option"
  on_tool_end :: "(pyval \<Rightarrow> string \<Rightarrow> exn option) option"
  registry :: tool_registry
  conversation :: conversation_history
  max_result_length :: int
  lib :: pylib
  client :: "'s \<Rightarrow> request \<Rightarrow> (exn + chat_completion) \<times> 's"
  client_state :: 's
  trace :: "event list"

definition emit :: "event \<Rightarrow> 's agent \<Rightarrow> 's agent" where
  "emit e a = a\<lparr>trace := trace a @ [e]\<rparr>"

definition new_events :: "'s agent \<Rightarrow> 's agent \<Rightarrow> event list" where
  "new_events a a' = drop (length (trace a)) (trace a')"

subsection \<open>Parsing the response\<close>

definition native_call :: "native_tool_call \<Rightarrow> tool_call" where
  "native_call tc =
     \<lparr>tc_id = ntc_id tc, tc_name = PStr (ntc_name tc), tc_arguments = PStr (ntc_arguments tc)\<rparr>"

text \<open>
  The handler of the fallback, \<open>except (json.JSONDecodeError, ValueError)\<close>: an exception
  of these classes ends the attempt with no tool call, any other exception passes.
\<close>

definition fallback_handler :: "exn \<Rightarrow> exn + tool_call list option" where
  "fallback_handler e = (if is_value_error (exn_cls e) then Inr None else Inl e)"

text \<open>
  \<open>_parse_tool_calls\<close>. A text that starts with an opening brace decodes to a
  dictionary or not at all, so the branch for another decoded value is never taken.
\<close>

definition parse_tool_calls :: "pylib \<Rightarrow> completion_message \<Rightarrow> exn + tool_call list option" where
  "parse_tool_calls l m =
     (case cm_tool_calls m of
        Some (t # ts) \<Rightarrow> Inr (Some (map native_call (t # ts)))
      | _ \<Rightarrow>
        (case cm_content m of
           None \<Rightarrow> Inr None
         | Some c \<Rightarrow>
             if c = [] then Inr None
             else
               let content = py_strip c;
                   json_start = py_find (CHR ''{'') content;
                   json_end = py_rfind (CHR ''}'') content
               in if json_start \<noteq> - 1 \<and> json_end \<noteq> - 1 \<and> json_end > json_start
                  then
                    let json_str = py_slice content json_start (json_end + 1)
                    in (case json_loads l json_str of
                          Inl e \<Rightarrow> fallback_handler e
                        | Inr (PDict parsed) \<Rightarrow>
                            (case map_of parsed (PStr ''name'') of
                               Some tname \<Rightarrow>
                                 if map_of parsed (PStr ''parameters'') \<noteq> None
                                    \<or> map_of parsed (PStr ''arguments'') \<noteq> None
                                 then
                                   let tool_args =
                                         (case map_of parsed (PStr ''parameters'') of
                                            Some v \<Rightarrow> v
                                          | None \<Rightarrow>
                                              (case map_of parsed (PStr ''arguments'') of
                                                 Some v \<Rightarrow> v
                                               | None \<Rightarrow> PDict []));
                                       tcid = ''call_''
                                               @ show_int (\<bar>py_hash l json_str\<bar> mod 100000)
                                   in (case tool_args of
                                         PDict _ \<Rightarrow>
                                           (case json_dumps l tool_args of
                                              Inl e \<Rightarrow> fallback_handler e
                                            | Inr args_str \<Rightarrow>
                                                Inr (Some [\<lparr>tc_id = tcid, tc_name = tname,
                                                             tc_arguments = PStr args_str\<rparr>]))
                                       | _ \<Rightarrow>
                                           Inr (Some [\<lparr>tc_id = tcid, tc_name = tname,
                                                        tc_arguments = tool_args\<rparr>]))
                                 else Inr None
                             | None \<Rightarrow> Inr None)
                        | Inr _ \<Rightarrow> Inr None)
                  else Inr None))"

subsection \<open>Dispatching one tool call\<close>

text \<open>
  \<open>tool.execute(**args)\<close> binds the keyword arguments before the body of \<open>execute\<close> and
  its \<open>try\<close> start: it raises \<open>TypeError\<close> when \<open>args\<close> is not a dictionary with string
  keys, and when a key is \<open>self\<close>, the name of the first parameter of \<open>execute\<close>.
\<close>

fun as_kwargs :: "(pyval \<times> pyval) list \<Rightarrow> kwargs option" where
  "as_kwargs [] = Some []"
| "as_kwargs ((k, v) # kvs) =
     (case k of
        PStr s \<Rightarrow> (case as_kwargs kvs of Some kw \<Rightarrow> Some ((s, v) # kw) | None \<Rightarrow> None)
      | _ \<Rightarrow> None)"

definition bind_kwargs :: "pyval \<Rightarrow> exn + kwargs" where
  "bind_kwargs args =
     (case args of
        PDict kvs \<Rightarrow>
          (case as_kwargs kvs of
             None \<Rightarrow> Inl (Exn TypeError ''keywords must be strings'' None)
           | Some kw \<Rightarrow>
               if ''self'' \<in> set (map fst kw)
               then Inl (Exn TypeError (''got multiple values for argument ''
                                         @ [CHR 0x27] @ ''self'' @ [CHR 0x27]) None)
               else Inr kw)
      | _ \<Rightarrow>
          Inl (Exn TypeError
                 (''argument after ** must be a mapping, not '' @ class_name args) None))"

text \<open>
  The argument payload: a string is decoded. The handler is \<open>except
  json.JSONDecodeError\<close>: for an exception of this class \<open>{}\<close> stands in, and any other
  exception of the decoder passes.
\<close>

definition decode_args :: "pylib \<Rightarrow> pyval \<Rightarrow> exn + pyval" where
  "decode_args l args =
     (case args of
        PStr s \<Rightarrow>
          (case json_loads l s of
             Inr v \<Rightarrow> Inr v
           | Inl e \<Rightarrow> if exn_cls e = JSONDecodeError then Inr (PDict []) else Inl e)
      | _ \<Rightarrow> Inr args)"

definition py_format :: "pylib \<Rightarrow> pyval \<Rightarrow> string" where
  "py_format l v = (case v of PStr s \<Rightarrow> s | _ \<Rightarrow> py_str l v)"

definition unknown_tool_result :: "pylib \<Rightarrow> tool_registry \<Rightarrow> pyval \<Rightarrow> string" where
  "unknown_tool_result l reg tname =
     ''Error: Unknown tool '' @ [CHR 0x27] @ py_format l tname @ [CHR 0x27]
       @ ''. Available tools: '' @ py_str l (PList (map (\<lambda>t. PStr (tool_name t)) (list_tools reg)))"

definition truncate_result :: "int \<Rightarrow> string \<Rightarrow> string" where
  "truncate_result cap result =
     (if int (length result) > cap
      then py_slice_to result cap
             @ [CHR 0x0A] @ ''... [truncated, '' @ show_nat (length result) @ '' chars total]''
      else result)"

text \<open>A call of an observer, when one is installed.\<close>

definition observe :: "('x \<Rightarrow> 'y \<Rightarrow> exn option) option \<Rightarrow> 'x \<Rightarrow> 'y \<Rightarrow> exn option" where
  "observe cb x y = (case cb of None \<Rightarrow> None | Some f \<Rightarrow> f x y)"

text \<open>
  The result of the lookup and execution of lines 207 to 212, before truncation: the
  agent after the call (with the execution event) and the text, or the exception.
\<close>

definition lookup_and_execute :: "'s agent \<Rightarrow> pyval \<Rightarrow> pyval \<Rightarrow> (exn + string) \<times> 's agent" where
  "lookup_and_execute a tname args =
     (case registry_get (registry a) tname of
        Inl e \<Rightarrow> (Inl e, a)
      | Inr None \<Rightarrow> (Inr (unknown_tool_result (lib a) (registry a) tname), a)
      | Inr (Some t) \<Rightarrow>
          (case bind_kwargs args of
             Inl e \<Rightarrow> (Inl e, a)
           | Inr kw \<Rightarrow> (execute (lib a) t kw, emit (ToolExec (tool_name t) kw) a)))"

text \<open>
  The body of the loop over the tool calls. Each step that raises ends the dispatch with
  the exception: the decoding of the payload, the start observer, the lookup and the
  execution, the end observer.
\<close>

definition dispatch_tool_call :: "'s agent \<Rightarrow> tool_call \<Rightarrow> (exn + unit) \<times> 's agent" where
  "dispatch_tool_call a tc =
     (let tname = tc_name tc
      in case decode_args (lib a) (tc_arguments tc) of
           Inl e \<Rightarrow> (Inl e, a)
         | Inr args \<Rightarrow>
             let a1 = (if on_tool_start a \<noteq> None then emit (OnToolStart tname args) a else a)
             in (case observe (on_tool_start a) tname args of
                   Some e \<Rightarrow> (Inl e, a1)
                 | None \<Rightarrow>
                     (case lookup_and_execute a1 tname args of
                        (Inl e, a2) \<Rightarrow> (Inl e, a2)
                      | (Inr result, a2) \<Rightarrow>
                          let result' = truncate_result (max_result_length a2) result;
                              a3 = (if on_tool_end a2 \<noteq> None
                                    then emit (OnToolEnd tname result') a2 else a2)
                          in (case observe (on_tool_end a2) tname result' of
                                Some e \<Rightarrow> (Inl e, a3)
                              | None \<Rightarrow>
                                  (Inr (),
                                   a3\<lparr>conversation :=
                                        add_tool_result (tc_id tc) tname result'
                                          (conversation a3)\<rparr>)))))"

fun dispatch_all :: "'s agent \<Rightarrow> tool_call list \<Rightarrow> (exn + unit) \<times> 's agent" where
  "dispatch_all a [] = (Inr (), a)"
| "dispatch_all a (tc # tcs) =
     (case dispatch_tool_call a tc of
        (Inl e, a') \<Rightarrow> (Inl e, a')
      | (Inr _, a') \<Rightarrow> dispatch_all a' tcs)"

subsection \<open>The loop and \<open>chat\<close>\<close>

definition assistant_tool_calls_message :: "tool_call list \<Rightarrow> message" where
  "assistant_tool_calls_message tcs =
     \<lparr>msg_role = Assistant, msg_content = None, msg_tool_calls = Some tcs,
      msg_tool_call_id = None, msg_name = None\<rparr>"

text \<open>
  \<open>build_kwargs\<close> is the dictionary of keyword arguments built at the start of each
  iteration. \<open>run_iterations n tools a\<close> is the \<open>for\<close> loop of \<open>_run_loop\<close> with \<open>n\<close>
  iterations left; when none is left the statement after the loop raises
  \<open>MaxIterationsError\<close>. The handler around the backend call is \<open>except Exception\<close>: it
  raises \<open>CompletionError\<close> in place of an exception of such a class.
\<close>

definition build_kwargs :: "openai_tool list option \<Rightarrow> 's agent \<Rightarrow> request" where
  "build_kwargs tools a =
     \<lparr>req_model = model a, req_messages = messages (conversation a),
      req_tools = (case tools of Some (t # ts) \<Rightarrow> tools | _ \<Rightarrow> None)\<rparr>"

definition completion_handler :: "exn \<Rightarrow> exn" where
  "completion_handler e =
     (if is_exception (exn_cls e)
      then Exn CompletionError (''LLM call failed: '' @ exn_str e) (Some e)
      else e)"

fun run_iterations ::
  "nat \<Rightarrow> openai_tool list option \<Rightarrow> 's agent \<Rightarrow> (exn + string) \<times> 's agent" where
  "run_iterations 0 tools a =
     (Inl (Exn MaxIterationsError
             (''Agent exceeded '' @ show_int (max_iterations a) @ '' iterations'') None), a)"
| "run_iterations (Suc n) tools a =
     (let kwargs = build_kwargs tools a
      in case client a (client_state a) kwargs of
           (Inl e, s') \<Rightarrow>
             (Inl (completion_handler e), emit (BackendRaised e) (a\<lparr>client_state := s'\<rparr>))
         | (Inr response, s') \<Rightarrow>
             let a1 = emit (BackendReturned response) (a\<lparr>client_state := s'\<rparr>)
             in (case response of
                   [] \<Rightarrow> (Inl (Exn IndexError ''list index out of range'' None), a1)
                 | choice # _ \<Rightarrow>
                     (case parse_tool_calls (lib a1) choice of
                        Inl e \<Rightarrow> (Inl e, a1)
                      | Inr (Some (tc # tcs)) \<Rightarrow>
                          let a2 = a1\<lparr>conversation :=
                                        add_assistant_tool_calls
                                          (assistant_tool_calls_message (tc # tcs))
                                          (conversation a1)\<rparr>
                          in (case dispatch_all a2 (tc # tcs) of
                                (Inl e, a3) \<Rightarrow> (Inl e, a3)
                              | (Inr _, a3) \<Rightarrow> run_iterations n tools a3)
                      | Inr _ \<Rightarrow>
                          let final_content = (case cm_content choice of Some c \<Rightarrow> c | None \<Rightarrow> [])
                          in (Inr (py_strip final_content),
                              if final_content \<noteq> []
                              then a1\<lparr>conversation :=
                                        add_assistant_message final_content (conversation a1)\<rparr>
                              else a1))))"

definition run_loop :: "'s agent \<Rightarrow> (exn + string) \<times> 's agent" where
  "run_loop a =
     run_iterations (nat (max_iterations a))
       (if length (registry a) > 0 then Some (to_openai_tools (registry a)) else None) a"

definition stopped_notice :: string where
  "stopped_notice = [CHR 0x0A, CHR 0x0A] @ ''[Stopped: reached maximum tool iterations]''"

definition rephrase_message :: string where
  "rephrase_message =
     ''[Agent reached maximum iterations without producing a final answer. Please try rephrasing your question.]''"

text \<open>
  \<open>chat\<close>: the first handler takes the class \<open>MaxIterationsError\<close>, the second is
  \<open>except Exception\<close> and raises \<open>AgentError\<close> while it handles the exception; an
  exception of another class passes. The result is the text returned or the exception
  raised to the caller, with the agent as the call leaves it.
\<close>

definition chat :: "'s agent \<Rightarrow> string \<Rightarrow> (exn + string) \<times> 's agent" where
  "chat a message =
     (let a1 = a\<lparr>conversation := add_user_message message (conversation a)\<rparr>
      in case run_loop a1 of
           (Inr text, a2) \<Rightarrow> (Inr text, a2)
         | (Inl e, a2) \<Rightarrow>
             if exn_cls e = MaxIterationsError then
               (case get_last_assistant_content (conversation a2) of
                  Some lst \<Rightarrow>
                    (if lst \<noteq> [] then Inr (lst @ stopped_notice) else Inr rephrase_message, a2)
                | None \<Rightarrow> (Inr rephrase_message, a2))
             else if is_exception (exn_cls e) then
               (Inl (Exn AgentError (''Agent failed: '' @ exn_str e) (Some e)), a2)
             else (Inl e, a2))"

text \<open>The constructor and the session controls.\<close>

definition Agent ::
  "tool list \<Rightarrow> string \<Rightarrow> string \<Rightarrow> int \<Rightarrow> int
     \<Rightarrow> (pyval \<Rightarrow> pyval \<Rightarrow> exn option) option \<Rightarrow> (pyval \<Rightarrow> string \<Rightarrow> exn option) option
     \<Rightarrow> int \<Rightarrow> pylib \<Rightarrow> ('s \<Rightarrow> request \<Rightarrow> (exn + chat_completion) \<times> 's) \<Rightarrow> 's \<Rightarrow> 's agent" where
  "Agent tools system_prompt mdl max_iters max_history start_cb end_cb cap l cl s0 =
     \<lparr>model = mdl, max_iterations = max_iters, on_tool_start = start_cb, on_tool_end = end_cb,
      registry = foldl (\<lambda>reg t. register t reg) [] tools,
      conversation = ConversationHistory (Some system_prompt) max_history,
      max_result_length = cap, lib = l, client = cl, client_state = s0, trace = []\<rparr>"

definition add_tool :: "tool \<Rightarrow> 's agent \<Rightarrow> 's agent" where
  "add_tool t a = a\<lparr>registry := register t (registry a)\<rparr>"

definition reset :: "'s agent \<Rightarrow> 's agent" where
  "reset a = a\<lparr>conversation := clear (conversation a)\<rparr>"

definition get_history :: "'s agent \<Rightarrow> message list" where
  "get_history a = messages (conversation a)"

section \<open>A reference library for concrete runs\<close>

text \<open>
  A concrete \<open>pylib\<close>, used where a run is evaluated on explicit inputs. Its reader
  decodes the JSON texts whose strings have no escape sequences and whose numbers are
  integers, and raises \<open>JSONDecodeError\<close> on every other text, with two exceptions that
  the decoder of the interpreter has too: it raises \<open>RecursionError\<close> when arrays and
  objects are nested deeper than the interpreter's stack allows (the recursion limit is
  1000 frames by default, less those in use at the call; the reference reader takes 950
  levels), and \<open>ValueError\<close> for an integer of more than 4300 digits. The messages of
  \<open>JSONDecodeError\<close> are abridged. Its writers produce the library's default layout and
  the layout of \<open>indent=2\<close>; they raise \<open>TypeError\<close> for a dictionary key that is not a
  string, a number, a boolean or \<open>None\<close>, and, when no \<open>default\<close> is given, for an
  object the encoder does not know. The other failures of the encoder (a value that
  contains itself, an integer of more than 4300 digits, a member whose \<open>str\<close> raises) do
  not occur among the values that the writers are applied to here.
\<close>

definition decode_error :: exn where
  "decode_error = Exn JSONDecodeError ''Expecting value'' None"

definition array_recursion_error :: exn where
  "array_recursion_error =
     Exn RecursionError
       ''maximum recursion depth exceeded while decoding a JSON array from a unicode string'' None"

definition object_recursion_error :: exn where
  "object_recursion_error =
     Exn RecursionError
       ''maximum recursion depth exceeded while decoding a JSON object from a unicode string'' None"

definition int_limit_error :: exn where
  "int_limit_error =
     Exn ValueError ''Exceeds the limit (4300 digits) for integer string conversion'' None"

definition recursion_budget :: nat where
  "recursion_budget = 950"

definition json_ws :: "char \<Rightarrow> bool" where
  "json_ws c \<longleftrightarrow> c \<in> set [CHR 0x20, CHR 0x09, CHR 0x0A, CHR 0x0D]"

definition is_digit :: "char \<Rightarrow> bool" where
  "is_digit c \<longleftrightarrow> c \<in> set ''0123456789''"

definition digits_value :: "string \<Rightarrow> nat" where
  "digits_value ds = foldl (\<lambda>n c. 10 * n + length (takeWhile (\<lambda>d. d \<noteq> c) ''0123456789'')) 0 ds"

definition read_nat :: "string \<Rightarrow> exn + (nat \<times> string)" where
  "read_nat s =
     (let ds = takeWhile is_digit s
      in if ds = [] \<or> (hd ds = CHR ''0'' \<and> length ds > 1) then Inl decode_error
         else if length ds > 4300 then Inl int_limit_error
         else Inr (digits_value ds, dropWhile is_digit s))"

fun read_string :: "string \<Rightarrow> (string \<times> string) option" where
  "read_string [] = None"
| "read_string (c # cs) =
     (if c = CHR 0x22 then Some ([], cs)
      else if c = CHR 0x5C \<or> of_char c < (32 :: nat) then None
      else (case read_string cs of Some (str, r) \<Rightarrow> Some (c # str, r) | None \<Rightarrow> None))"

text \<open>
  \<open>read_value n d s\<close> reads one value at the start of \<open>s\<close>; \<open>n\<close> bounds the number of
  steps and \<open>d\<close> is the number of levels of nesting that the stack still allows.
\<close>

fun read_value :: "nat \<Rightarrow> nat \<Rightarrow> string \<Rightarrow> exn + (pyval \<times> string)"
  and read_items :: "nat \<Rightarrow> nat \<Rightarrow> string \<Rightarrow> exn + (pyval list \<times> string)"
  and read_members :: "nat \<Rightarrow> nat \<Rightarrow> string \<Rightarrow> exn + ((pyval \<times> pyval) list \<times> string)" where
  "read_value 0 d s = Inl decode_error"
| "read_value (Suc n) d s =
     (case dropWhile json_ws s of
        [] \<Rightarrow> Inl decode_error
      | c # r \<Rightarrow>
          if c = CHR 0x22 then
            (case read_string r of
               Some (str, r') \<Rightarrow> Inr (PStr str, r')
             | None \<Rightarrow> Inl decode_error)
          else if c = CHR ''['' then
            (case d of
               0 \<Rightarrow> Inl array_recursion_error
             | Suc d' \<Rightarrow>
                 (case dropWhile json_ws r of
                    [] \<Rightarrow> Inl decode_error
                  | x # r' \<Rightarrow>
                      if x = CHR '']'' then Inr (PList [], r')
                      else (case read_items n d' r of
                              Inr (vs, r'') \<Rightarrow> Inr (PList vs, r'')
                            | Inl e \<Rightarrow> Inl e)))
          else if c = CHR ''{'' then
            (case d of
               0 \<Rightarrow> Inl object_recursion_error
             | Suc d' \<Rightarrow>
                 (case dropWhile json_ws r of
                    [] \<Rightarrow> Inl decode_error
                  | x # r' \<Rightarrow>
                      if x = CHR ''}'' then Inr (PDict [], r')
                      else (case read_members n d' r of
                              Inr (kvs, r'') \<Rightarrow>
                                Inr (PDict (foldl (\<lambda>d (k, v). AList.update k v d) [] kvs), r'')
                            | Inl e \<Rightarrow> Inl e)))
          else if take 4 (c # r) = ''true'' then Inr (PBool True, drop 4 (c # r))
          else if take 5 (c # r) = ''false'' then Inr (PBool False, drop 5 (c # r))
          else if take 4 (c # r) = ''null'' then Inr (PNone, drop 4 (c # r))
          else if c = CHR ''-'' then
            (case read_nat r of Inr (k, r') \<Rightarrow> Inr (PInt (- int k), r') | Inl e \<Rightarrow> Inl e)
          else (case read_nat (c # r) of Inr (k, r') \<Rightarrow> Inr (PInt (int k), r') | Inl e \<Rightarrow> Inl e))"
| "read_items 0 d s = Inl decode_error"
| "read_items (Suc n) d s =
     (case read_value n d s of
        Inl e \<Rightarrow> Inl e
      | Inr (v, r) \<Rightarrow>
          (case dropWhile json_ws r of
             [] \<Rightarrow> Inl decode_error
           | c # r' \<Rightarrow>
               if c = CHR '']'' then Inr ([v], r')
               else if c = CHR '','' then
                 (case read_items n d r' of Inr (vs, r'') \<Rightarrow> Inr (v # vs, r'') | Inl e \<Rightarrow> Inl e)
               else Inl decode_error))"
| "read_members 0 d s = Inl decode_error"
| "read_members (Suc n) d s =
     (case dropWhile json_ws s of
        [] \<Rightarrow> Inl decode_error
      | q # r \<Rightarrow>
          if q \<noteq> CHR 0x22 then Inl decode_error
          else (case read_string r of
                  None \<Rightarrow> Inl decode_error
                | Some (k, r1) \<Rightarrow>
                    (case dropWhile json_ws r1 of
                       [] \<Rightarrow> Inl decode_error
                     | c # r2 \<Rightarrow>
                         if c \<noteq> CHR '':'' then Inl decode_error
                         else (case read_value n d r2 of
                                 Inl e \<Rightarrow> Inl e
                               | Inr (v, r3) \<Rightarrow>
                                   (case dropWhile json_ws r3 of
                                      [] \<Rightarrow> Inl decode_error
                                    | e # r4 \<Rightarrow>
                                        if e = CHR ''}'' then Inr ([(PStr k, v)], r4)
                                        else if e = CHR '','' then
                                          (case read_members n d r4 of
                                             Inr (kvs, r5) \<Rightarrow> Inr ((PStr k, v) # kvs, r5)
                                           | Inl e' \<Rightarrow> Inl e')
                                        else Inl decode_error)))))"

definition ref_json_loads :: "string \<Rightarrow> exn + pyval" where
  "ref_json_loads s =
     (case read_value (2 * length s + 2) recursion_budget s of
        Inr (v, r) \<Rightarrow> if dropWhile json_ws r = [] then Inr v else Inl decode_error
      | Inl e \<Rightarrow> Inl e)"

fun join :: "string \<Rightarrow> string list \<Rightarrow> string" where
  "join sep [] = []"
| "join sep [x] = x"
| "join sep (x # y # ys) = x @ sep @ join sep (y # ys)"

definition json_quote :: "string \<Rightarrow> string" where
  "json_quote s =
     [CHR 0x22]
       @ concat (map (\<lambda>c. if c = CHR 0x22 \<or> c = CHR 0x5C then [CHR 0x5C, c] else [c]) s)
       @ [CHR 0x22]"

fun json_key :: "pyval \<Rightarrow> string" where
  "json_key (PStr s) = json_quote s"
| "json_key (PInt i) = json_quote (show_int i)"
| "json_key (PBool b) = json_quote (if b then ''true'' else ''false'')"
| "json_key v = json_quote ''null''"

fun ref_json_dumps :: "pyval \<Rightarrow> string" where
  "ref_json_dumps PNone = ''null''"
| "ref_json_dumps (PBool b) = (if b then ''true'' else ''false'')"
| "ref_json_dumps (PInt i) = show_int i"
| "ref_json_dumps (PStr s) = json_quote s"
| "ref_json_dumps (PList xs) = ''['' @ join '', '' (map ref_json_dumps xs) @ '']''"
| "ref_json_dumps (PDict kvs) =
     ''{'' @ join '', '' (map (\<lambda>(k, v). json_key k @ '': '' @ ref_json_dumps v) kvs) @ ''}''"
| "ref_json_dumps (PObj cls s) = json_quote s"

fun ref_dumps_indent :: "nat \<Rightarrow> pyval \<Rightarrow> string" where
  "ref_dumps_indent lvl (PList xs) =
     (if xs = [] then ''[]''
      else ''['' @ [CHR 0x0A] @ replicate (2 * (lvl + 1)) (CHR '' '')
           @ join ('','' @ [CHR 0x0A] @ replicate (2 * (lvl + 1)) (CHR '' ''))
               (map (ref_dumps_indent (lvl + 1)) xs)
           @ [CHR 0x0A] @ replicate (2 * lvl) (CHR '' '') @ '']'')"
| "ref_dumps_indent lvl (PDict kvs) =
     (if kvs = [] then ''{}''
      else ''{'' @ [CHR 0x0A] @ replicate (2 * (lvl + 1)) (CHR '' '')
           @ join ('','' @ [CHR 0x0A] @ replicate (2 * (lvl + 1)) (CHR '' ''))
               (map (\<lambda>(k, v). json_key k @ '': '' @ ref_dumps_indent (lvl + 1) v) kvs)
           @ [CHR 0x0A] @ replicate (2 * lvl) (CHR '' '') @ ''}'')"
| "ref_dumps_indent lvl v = ref_json_dumps v"

definition py_quote :: "string \<Rightarrow> string" where
  "py_quote s = [CHR 0x27] @ s @ [CHR 0x27]"

fun ref_repr :: "pyval \<Rightarrow> string" where
  "ref_repr PNone = ''None''"
| "ref_repr (PBool b) = (if b then ''True'' else ''False'')"
| "ref_repr (PInt i) = show_int i"
| "ref_repr (PStr s) = py_quote s"
| "ref_repr (PList xs) = ''['' @ join '', '' (map ref_repr xs) @ '']''"
| "ref_repr (PDict kvs) =
     ''{'' @ join '', '' (map (\<lambda>(k, v). ref_repr k @ '': '' @ ref_repr v) kvs) @ ''}''"
| "ref_repr (PObj cls s) = s"

definition ref_str :: "pyval \<Rightarrow> string" where
  "ref_str v = (case v of PStr s \<Rightarrow> s | _ \<Rightarrow> ref_repr v)"

definition ref_hash :: "string \<Rightarrow> int" where
  "ref_hash s = foldl (\<lambda>h c. (31 * h + int (of_char c)) mod 2305843009213693951) 7 s"

text \<open>
  What the encoder does with the values it does not know. With \<open>default=str\<close> it calls
  \<open>str\<close> on every such value and encodes the string in its place (\<open>apply_default\<close>).
  It does not call \<open>default\<close> on the keys of a dictionary: a key that is not a string, a
  number, a boolean or \<open>None\<close> raises \<open>TypeError\<close> (\<open>bad_keys\<close> lists such keys in
  the order the encoder meets them). \<open>encodable\<close> is a value that the encoder accepts
  with no \<open>default\<close>.
\<close>

fun apply_default :: "pyval \<Rightarrow> pyval" where
  "apply_default (PObj cls s) = PStr s"
| "apply_default (PList xs) = PList (map apply_default xs)"
| "apply_default (PDict kvs) = PDict (map (\<lambda>(k, v). (k, apply_default v)) kvs)"
| "apply_default v = v"

fun basic_key :: "pyval \<Rightarrow> bool" where
  "basic_key (PList _) = False"
| "basic_key (PDict _) = False"
| "basic_key (PObj _ _) = False"
| "basic_key _ = True"

fun bad_keys :: "pyval \<Rightarrow> pyval list" where
  "bad_keys (PList xs) = concat (map bad_keys xs)"
| "bad_keys (PDict kvs) =
     concat (map (\<lambda>(k, v). (if basic_key k then [] else [k]) @ bad_keys v) kvs)"
| "bad_keys v = []"

fun encodable :: "pyval \<Rightarrow> bool" where
  "encodable (PObj cls s) = False"
| "encodable (PList xs) = list_all encodable xs"
| "encodable (PDict kvs) = list_all (\<lambda>(k, v). basic_key k \<and> encodable v) kvs"
| "encodable v = True"

definition key_error :: "pyval \<Rightarrow> exn" where
  "key_error k =
     Exn TypeError (''keys must be str, int, float, bool or None, not '' @ class_name k) None"

definition ref_dumps :: "pyval \<Rightarrow> exn + string" where
  "ref_dumps v =
     (if encodable v then Inr (ref_json_dumps v)
      else Inl (Exn TypeError ''Object is not JSON serializable'' None))"

definition ref_dumps_default_str :: "pyval \<Rightarrow> exn + string" where
  "ref_dumps_default_str v =
     (case bad_keys v of
        [] \<Rightarrow> Inr (ref_dumps_indent 0 (apply_default v))
      | k # _ \<Rightarrow> Inl (key_error k))"

definition ref_lib :: pylib where
  "ref_lib =
     \<lparr>json_loads = ref_json_loads, json_dumps = ref_dumps,
      json_dumps_default_str = ref_dumps_default_str, py_hash = ref_hash, py_str = ref_str\<rparr>"

section \<open>Notions used in the statements\<close>

text \<open>
  The text that the steps of a dispatch before the truncation produce, or the exception
  they raise: the decoding of the payload, the start observer, the lookup and the
  execution.
\<close>

definition raw_result :: "'s agent \<Rightarrow> tool_call \<Rightarrow> exn + string" where
  "raw_result a tc =
     (case decode_args (lib a) (tc_arguments tc) of
        Inl e \<Rightarrow> Inl e
      | Inr args \<Rightarrow>
          (case observe (on_tool_start a) (tc_name tc) args of
             Some e \<Rightarrow> Inl e
           | None \<Rightarrow> fst (lookup_and_execute a (tc_name tc) args)))"

text \<open>
  Notions for the statements about the loop. \<open>same_setup\<close>: two states of an agent
  differ at most in the history's messages, the client's state and the trace.
  \<open>tool_events\<close>: no backend call among the events. \<open>tool_calls_of\<close>,
  \<open>final_content\<close>, \<open>after_response\<close> and \<open>with_tool_calls\<close> name the values that an
  iteration of \<open>run_iterations\<close> computes. \<open>raise_is_last\<close>: every failed backend call
  among the events is their last event and the cause of the result. \<open>final_answer_of\<close>:
  the stripped content of the response of the last event, when this event is a response
  of the backend that carries no tool call.
\<close>

definition same_setup :: "'s agent \<Rightarrow> 's agent \<Rightarrow> bool" where
  "same_setup a a' \<longleftrightarrow>
     model a' = model a \<and> max_iterations a' = max_iterations a
     \<and> on_tool_start a' = on_tool_start a \<and> on_tool_end a' = on_tool_end a
     \<and> registry a' = registry a \<and> max_result_length a' = max_result_length a
     \<and> lib a' = lib a \<and> client a' = client a
     \<and> max_messages (conversation a') = max_messages (conversation a)"

fun is_backend_raised :: "event \<Rightarrow> bool" where
  "is_backend_raised (BackendRaised _) = True"
| "is_backend_raised _ = False"

definition tool_events :: "event list \<Rightarrow> bool" where
  "tool_events evs \<longleftrightarrow> list_all (\<lambda>e. \<not> is_backend_call e) evs"

definition tool_calls_of :: "pylib \<Rightarrow> completion_message \<Rightarrow> exn + tool_call list" where
  "tool_calls_of l choice =
     (case parse_tool_calls l choice of
        Inl e \<Rightarrow> Inl e
      | Inr None \<Rightarrow> Inr []
      | Inr (Some tcs) \<Rightarrow> Inr tcs)"

definition final_content :: "completion_message \<Rightarrow> string" where
  "final_content choice = (case cm_content choice of Some c \<Rightarrow> c | None \<Rightarrow> [])"

definition after_response :: "'s agent \<Rightarrow> 's \<Rightarrow> chat_completion \<Rightarrow> 's agent" where
  "after_response a s' response = emit (BackendReturned response) (a\<lparr>client_state := s'\<rparr>)"

definition with_tool_calls :: "'s agent \<Rightarrow> tool_call list \<Rightarrow> 's agent" where
  "with_tool_calls a tcs =
     a\<lparr>conversation :=
         add_assistant_tool_calls (assistant_tool_calls_message tcs) (conversation a)\<rparr>"

definition raise_is_last :: "exn + string \<Rightarrow> event list \<Rightarrow> bool" where
  "raise_is_last r evs \<longleftrightarrow>
     (\<forall>e. BackendRaised e \<in> set evs \<longrightarrow>
        (\<exists>pre. evs = pre @ [BackendRaised e] \<and> list_all (\<lambda>x. \<not> is_backend_raised x) pre)
        \<and> r = Inl (completion_handler e))"

definition final_answer_of :: "pylib \<Rightarrow> event list \<Rightarrow> string option" where
  "final_answer_of l evs =
     (case rev evs of
        BackendReturned (choice # rest) # _ \<Rightarrow>
          if tool_calls_of l choice = Inr [] then Some (py_strip (final_content choice)) else None
      | _ \<Rightarrow> None)"

text \<open>
  \<open>with_user_message\<close> is the agent after step 1 of \<open>chat\<close>; \<open>raised_class\<close> is the
  class of the exception that a result raises, if it raises; \<open>exhausted\<close> says that the
  loop ended with an exception of the class \<open>MaxIterationsError\<close>; \<open>exhaustion_text\<close> is
  the text that \<open>chat\<close> returns then.
\<close>

definition with_user_message :: "'s agent \<Rightarrow> string \<Rightarrow> 's agent" where
  "with_user_message a message =
     a\<lparr>conversation := add_user_message message (conversation a)\<rparr>"


definition exhausted :: "exn + string \<Rightarrow> bool" where
  "exhausted r = (case r of Inl e \<Rightarrow> exn_cls e = MaxIterationsError | Inr _ \<Rightarrow> False)"

definition exhaustion_text :: "conversation_history \<Rightarrow> string" where
  "exhaustion_text h =
     (case get_last_assistant_content h of
        Some lst \<Rightarrow> if lst \<noteq> [] then lst @ stopped_notice else rephrase_message
      | None \<Rightarrow> rephrase_message)"

text \<open>A tool call whose dispatch by the agent raises nothing.\<close>

definition dispatch_completes :: "'s agent \<Rightarrow> tool_call \<Rightarrow> bool" where
  "dispatch_completes a tc \<longleftrightarrow> fst (dispatch_tool_call a tc) = Inr ()"

text \<open>
  The claim's words for the exhaustion path: the content of the most recent assistant
  message whose content is not null. The code looks for a content that is truthy
  instead; the two agree on the histories in which no assistant message has the empty
  string as content (\<open>assistant_texts_nonempty\<close>), which are the histories that the
  agent's operations build.
\<close>

fun first_nonnull_assistant :: "message list \<Rightarrow> string option" where
  "first_nonnull_assistant [] = None"
| "first_nonnull_assistant (m # ms) =
     (if msg_role m = Assistant \<and> msg_content m \<noteq> None
      then msg_content m else first_nonnull_assistant ms)"

definition newest_assistant_text :: "message list \<Rightarrow> string option" where
  "newest_assistant_text ms = first_nonnull_assistant (rev ms)"

definition assistant_text_ok :: "message \<Rightarrow> bool" where
  "assistant_text_ok m \<longleftrightarrow> \<not> (msg_role m = Assistant \<and> msg_content m = Some [])"

definition assistant_texts_nonempty :: "message list \<Rightarrow> bool" where
  "assistant_texts_nonempty ms \<longleftrightarrow> list_all assistant_text_ok ms"





text \<open>
  Correlation of tool results. \<open>invocation_ids m\<close> are the ids that an assistant message
  with tool calls emits. \<open>correlated_once_from seen ms\<close> follows the claim's words: the
  id of every tool message of \<open>ms\<close> occurs exactly once among the ids emitted before it
  (\<open>seen\<close> holds the ids emitted before \<open>ms\<close>). \<open>correlated_from\<close> asks for at least one
  occurrence.
\<close>

definition invocation_ids :: "message \<Rightarrow> string list" where
  "invocation_ids m =
     (if msg_role m = Assistant
      then (case msg_tool_calls m of Some tcs \<Rightarrow> map tc_id tcs | None \<Rightarrow> [])
      else [])"

fun correlated_once_from :: "string list \<Rightarrow> message list \<Rightarrow> bool" where
  "correlated_once_from seen [] = True"
| "correlated_once_from seen (m # ms) =
     ((if msg_role m = Tool
       then (case msg_tool_call_id m of Some i \<Rightarrow> count_list seen i = 1 | None \<Rightarrow> False)
       else True)
      \<and> correlated_once_from (seen @ invocation_ids m) ms)"

fun correlated_from :: "string list \<Rightarrow> message list \<Rightarrow> bool" where
  "correlated_from seen [] = True"
| "correlated_from seen (m # ms) =
     ((if msg_role m = Tool
       then (case msg_tool_call_id m of Some i \<Rightarrow> i \<in> set seen | None \<Rightarrow> False)
       else True)
      \<and> correlated_from (seen @ invocation_ids m) ms)"

definition tool_results_for :: "string list \<Rightarrow> message list \<Rightarrow> bool" where
  "tool_results_for ids ms \<longleftrightarrow>
     list_all (\<lambda>m. msg_role m = Tool
                  \<and> (case msg_tool_call_id m of Some i \<Rightarrow> i \<in> set ids | None \<Rightarrow> False)) ms"

definition history_length :: "'s agent \<Rightarrow> int" where
  "history_length a = int (length (messages (conversation a)))"



section \<open>Concrete agents\<close>

definition fixed_tool :: "string \<Rightarrow> tool_outcome \<Rightarrow> tool" where
  "fixed_tool nm out =
     \<lparr>tool_name = nm, tool_description = [], tool_parameters = PDict [],
      tool_function = (\<lambda>kw. out), requires_browser = False\<rparr>"

definition connection_refused :: exn where
  "connection_refused = Exn (OtherException ''APIConnectionError'') ''connection refused'' None"

definition no_backend :: "unit \<Rightarrow> request \<Rightarrow> (exn + chat_completion) \<times> unit" where
  "no_backend s req = (Inl connection_refused, s)"

definition long_result_agent :: "unit agent" where
  "long_result_agent =
     Agent [fixed_tool ''echo'' (Returns (PStr ''abcdefghij''))] ''sys'' ''m'' 10 100 None None 4
       ref_lib no_backend ()"

definition echo_call :: tool_call where
  "echo_call = \<lparr>tc_id = ''c1'', tc_name = PStr ''echo'', tc_arguments = PStr ''{}''\<rparr>"

text \<open>
  A history that starts with the system message of prompt \<open>p\<close> and has no other system
  message, and the four appending operations of \<open>ConversationHistory\<close> as data, to speak
  of sequences of appends.
\<close>

definition headed :: "string \<Rightarrow> conversation_history \<Rightarrow> bool" where
  "headed p h \<longleftrightarrow>
     (case messages h of
        [] \<Rightarrow> False
      | m # rest \<Rightarrow> m = system_message p \<and> list_all (\<lambda>x. msg_role x \<noteq> System) rest)"

datatype append_op =
    AddUser string
  | AddAssistant string
  | AddAssistantToolCalls message
  | AddToolResult string pyval string

fun apply_append :: "conversation_history \<Rightarrow> append_op \<Rightarrow> conversation_history" where
  "apply_append h (AddUser c) = add_user_message c h"
| "apply_append h (AddAssistant c) = add_assistant_message c h"
| "apply_append h (AddAssistantToolCalls m) = add_assistant_tool_calls m h"
| "apply_append h (AddToolResult i n c) = add_tool_result i n c h"

fun appended_message :: "append_op \<Rightarrow> message" where
  "appended_message (AddUser c) = user_message c"
| "appended_message (AddAssistant c) = assistant_message c"
| "appended_message (AddAssistantToolCalls m) = m"
| "appended_message (AddToolResult i n c) = tool_message i n c"







definition blank_backend :: "unit \<Rightarrow> request \<Rightarrow> (exn + chat_completion) \<times> unit" where
  "blank_backend s req = (Inr [\<lparr>cm_content = None, cm_tool_calls = None\<rparr>], s)"

definition blank_agent :: "unit agent" where
  "blank_agent = Agent [] ''sys'' ''m'' 3 100 None None 4000 ref_lib blank_backend ()"

definition native_backend ::
  "native_tool_call \<Rightarrow> unit \<Rightarrow> request \<Rightarrow> (exn + chat_completion) \<times> unit" where
  "native_backend tc s req = (Inr [\<lparr>cm_content = None, cm_tool_calls = Some [tc]\<rparr>], s)"

definition unknown_tool_agent :: "unit agent" where
  "unknown_tool_agent =
     Agent [] ''sys'' ''m'' 2 100 None None 4000 ref_lib
       (native_backend \<lparr>ntc_id = ''c1'', ntc_name = ''nope'', ntc_arguments = ''{}''\<rparr>) ()"

definition list_arguments_agent :: "unit agent" where
  "list_arguments_agent =
     Agent [fixed_tool ''echo'' (Returns (PStr ''ok''))] ''sys'' ''m'' 3 100 None None 4000 ref_lib
       (native_backend \<lparr>ntc_id = ''c1'', ntc_name = ''echo'', ntc_arguments = ''[1]''\<rparr>) ()"


definition scripted_backend :: "nat \<Rightarrow> request \<Rightarrow> (exn + chat_completion) \<times> nat" where
  "scripted_backend n req =
     (if n = 0 then Inr [\<lparr>cm_content = Some ''hello'', cm_tool_calls = None\<rparr>]
      else Inr [\<lparr>cm_content = None,
                 cm_tool_calls = Some [\<lparr>ntc_id = ''c1'', ntc_name = ''nope'',
                                         ntc_arguments = ''{}''\<rparr>]\<rparr>],
      Suc n)"

definition scripted_agent :: "nat agent" where
  "scripted_agent = Agent [] ''sys'' ''m'' 1 100 None None 4000 ref_lib scripted_backend 0"

definition greeted_agent :: "nat agent" where
  "greeted_agent = snd (chat scripted_agent ''hi'')"







definition short_history_agent :: "unit agent" where
  "short_history_agent =
     Agent [] ''sys'' ''m'' 1 2 None None 4000 ref_lib
       (native_backend \<lparr>ntc_id = ''c1'', ntc_name = ''nope'', ntc_arguments = ''{}''\<rparr>) ()"

definition unknown_nope :: string where
  "unknown_nope =
     ''Error: Unknown tool '' @ [CHR 0x27] @ ''nope'' @ [CHR 0x27] @ ''. Available tools: []''"

section \<open>Verified properties\<close>

subsection \<open>Evaluation of the reference library\<close>

lemma ref_loads_empty_object: "ref_json_loads ''{}'' = Inr (PDict [])"
  by code_simp

lemma show_nat_10: "show_nat 10 = ''10''"
  by (simp add: show_nat.simps)

lemma ref_loads_list: "ref_json_loads ''[1]'' = Inr (PList [PInt 1])"
  by code_simp







subsection \<open>Truncation of tool results\<close>

lemma fst_lookup_and_execute_setup:
  "lib a' = lib a \<Longrightarrow> registry a' = registry a \<Longrightarrow>
     fst (lookup_and_execute a' tname args) = fst (lookup_and_execute a tname args)"
  by (simp add: lookup_and_execute_def split: sum.splits option.splits)

lemma lookup_and_execute_fields:
  "lookup_and_execute a tname args = (r, a') \<Longrightarrow>
     conversation a' = conversation a \<and> max_result_length a' = max_result_length a
     \<and> on_tool_end a' = on_tool_end a \<and> lib a' = lib a \<and> registry a' = registry a"
  by (auto simp: lookup_and_execute_def emit_def split: sum.splits option.splits)

lemma raw_result_Inr:
  assumes "raw_result a tc = Inr r"
  obtains args where "decode_args (lib a) (tc_arguments tc) = Inr args"
    "observe (on_tool_start a) (tc_name tc) args = None"
    "fst (lookup_and_execute a (tc_name tc) args) = Inr r"
  using assms by (auto simp: raw_result_def split: sum.splits option.splits)

lemma dispatch_tool_call_records:
  assumes "raw_result a tc = Inr r"
  shows "\<exists>a'. (case observe (on_tool_end a) (tc_name tc) (truncate_result (max_result_length a) r) of
                 None \<Rightarrow>
                   dispatch_tool_call a tc = (Inr (), a')
                   \<and> conversation a' =
                       add_tool_result (tc_id tc) (tc_name tc)
                         (truncate_result (max_result_length a) r) (conversation a)
               | Some e \<Rightarrow> dispatch_tool_call a tc = (Inl e, a') \<and> conversation a' = conversation a)"
proof -
  from assms obtain args where
    d: "decode_args (lib a) (tc_arguments tc) = Inr args"
    and o: "observe (on_tool_start a) (tc_name tc) args = None"
    and l: "fst (lookup_and_execute a (tc_name tc) args) = Inr r"
    by (rule raw_result_Inr)
  let ?a1 = "if on_tool_start a \<noteq> None then emit (OnToolStart (tc_name tc) args) a else a"
  obtain res a2 where le: "lookup_and_execute ?a1 (tc_name tc) args = (res, a2)"
    by (cases "lookup_and_execute ?a1 (tc_name tc) args")
  have "fst (lookup_and_execute ?a1 (tc_name tc) args) = fst (lookup_and_execute a (tc_name tc) args)"
    by (rule fst_lookup_and_execute_setup) (simp_all add: emit_def)
  with le l have res: "res = Inr r" by simp
  have f: "conversation a2 = conversation a" "max_result_length a2 = max_result_length a"
    "on_tool_end a2 = on_tool_end a"
    using lookup_and_execute_fields [OF le] by (simp_all add: emit_def)
  show ?thesis
  proof (cases "observe (on_tool_end a) (tc_name tc) (truncate_result (max_result_length a) r)")
    case None
    then show ?thesis
      using d o le res f by (simp add: dispatch_tool_call_def Let_def emit_def)
  next
    case (Some e)
    then show ?thesis
      using d o le res f by (simp add: dispatch_tool_call_def Let_def emit_def)
  qed
qed

text \<open>
  C4. When the cap is not negative and the steps of a dispatch before the truncation
  produce the text \<open>r\<close>, the text handed to the end observer and recorded by
  \<open>add_tool_result\<close> under the call's id and name is: the first \<open>cap\<close> characters of
  \<open>r\<close> followed by a line break and \<open>... [truncated, N chars total]\<close> with \<open>N\<close> the length
  of \<open>r\<close>, when \<open>r\<close> is longer than the cap; and \<open>r\<close> itself otherwise. The dispatch
  completes and records this text, unless an installed end observer raises on it: then
  the dispatch raises the observer's exception and records nothing.
\<close>

theorem truncation_of_tool_result:
  assumes "0 \<le> max_result_length a" and "raw_result a tc = Inr r"
  shows "\<exists>a' t. t = (if int (length r) > max_result_length a
                      then take (nat (max_result_length a)) r @ [CHR 0x0A] @ ''... [truncated, ''
                             @ show_nat (length r) @ '' chars total]''
                      else r)
           \<and> (case observe (on_tool_end a) (tc_name tc) t of
                 None \<Rightarrow>
                   dispatch_tool_call a tc = (Inr (), a')
                   \<and> conversation a' = add_tool_result (tc_id tc) (tc_name tc) t (conversation a)
               | Some e \<Rightarrow> dispatch_tool_call a tc = (Inl e, a') \<and> conversation a' = conversation a)"
proof -
  have "truncate_result (max_result_length a) r
          = (if int (length r) > max_result_length a
             then take (nat (max_result_length a)) r @ [CHR 0x0A] @ ''... [truncated, ''
                    @ show_nat (length r) @ '' chars total]''
             else r)"
    using assms(1) by (simp add: truncate_result_def py_slice_to_def)
  with dispatch_tool_call_records [OF assms(2)] show ?thesis
    by metis
qed

lemma raw_result_echo: "raw_result long_result_agent echo_call = Inr ''abcdefghij''"
  by (simp add: raw_result_def long_result_agent_def echo_call_def Agent_def register_def
      fixed_tool_def lookup_and_execute_def registry_get_def decode_args_def ref_lib_def
      ref_loads_empty_object bind_kwargs_def execute_def observe_def)

theorem truncation_of_tool_result_witness:
  "\<exists>a'. dispatch_tool_call long_result_agent echo_call = (Inr (), a') \<and>
     conversation a' =
       add_tool_result ''c1'' (PStr ''echo'') (''abcd'' @ [CHR 0x0A] @ ''... [truncated, 10 chars total]'')
         (conversation long_result_agent)"
proof -
  have cap: "max_result_length long_result_agent = 4"
    by (simp add: long_result_agent_def Agent_def)
  have h1: "0 \<le> max_result_length long_result_agent"
    by (simp add: cap)
  have len: "length ''abcdefghij'' = 10"
    by simp
  have ob: "on_tool_end long_result_agent = None"
    by (simp add: long_result_agent_def Agent_def)
  from truncation_of_tool_result [OF h1 raw_result_echo] show ?thesis
    unfolding cap len ob by (simp add: show_nat_10 echo_call_def observe_def)
qed

subsection \<open>Tool execution\<close>

lemma encodable_apply_default: "bad_keys v = [] \<Longrightarrow> encodable (apply_default v)"
proof (induction v rule: bad_keys.induct)
  case (1 xs)
  have "encodable (apply_default x)" if "x \<in> set xs" for x
    using that 1 by simp
  then show ?case by (simp add: list_all_iff)
next
  case (2 kvs)
  have "basic_key k \<and> encodable (apply_default v)" if "(k, v) \<in> set kvs" for k v
  proof -
    from 2(2) have "\<forall>x\<in>set kvs. (\<lambda>(k, v). (if basic_key k then [] else [k]) @ bad_keys v) x = []"
      by simp
    with that have "(if basic_key k then [] else [k]) @ bad_keys v = []"
      by fastforce
    then have "basic_key k" "bad_keys v = []"
      by (simp_all split: if_splits)
    then show ?thesis using 2(1) [OF that refl] by simp
  qed
  then show ?case by (auto simp: list_all_iff)
qed simp_all

text \<open>
  The reference encoder with \<open>default=str\<close>: when every dictionary key in the value is
  basic, the text is the encoding of the value with \<open>str\<close> of each unknown object in its
  place, a value that the encoder accepts.
\<close>

lemma ref_dumps_default_str_substitutes:
  "bad_keys v = [] \<Longrightarrow>
     json_dumps_default_str ref_lib v = Inr (ref_dumps_indent 0 (apply_default v))
     \<and> encodable (apply_default v)"
  by (simp add: ref_lib_def ref_dumps_default_str_def encodable_apply_default)





subsection \<open>Trimming of the history\<close>

text \<open>
  C6, at the cap 1. A history created with the system prompt \<open>s\<close> and \<open>max_messages = 1\<close>
  holds two messages after one \<open>add_user_message\<close>: \<open>keep\<close> is 0, and the slice
  \<open>non_system[-0:]\<close> is the whole list, so nothing is dropped and the length exceeds the cap.
\<close>

theorem cap_one_history_is_not_trimmed:
  "messages (add_user_message ''a'' (ConversationHistory (Some ''s'') 1))
     = [system_message ''s'', user_message ''a'']
   \<and> int (length (messages (add_user_message ''a'' (ConversationHistory (Some ''s'') 1))))
       > max_messages (add_user_message ''a'' (ConversationHistory (Some ''s'') 1))"
  by (simp add: add_user_message_def ConversationHistory_def trim_if_needed_def Let_def
      py_slice_from_def system_message_def user_message_def)

lemma apply_append_eq:
  "apply_append h op = trim_if_needed (h\<lparr>messages := messages h @ [appended_message op]\<rparr>)"
  by (cases op)
    (simp_all add: add_user_message_def add_assistant_message_def add_assistant_tool_calls_def
      add_tool_result_def)

lemma max_messages_trim [simp]: "max_messages (trim_if_needed h) = max_messages h"
  by (simp add: trim_if_needed_def Let_def)

lemma filter_non_system:
  "list_all (\<lambda>x. msg_role x \<noteq> System) xs \<Longrightarrow>
     filter (\<lambda>m. msg_role m = System) xs = [] \<and> filter (\<lambda>m. msg_role m \<noteq> System) xs = xs"
  by (induction xs) auto

lemma trim_headed_shape:
  assumes "messages h = system_message p # rest" "list_all (\<lambda>x. msg_role x \<noteq> System) rest"
  shows "messages (trim_if_needed h) =
           (if int (length rest) + 1 \<le> max_messages h then system_message p # rest
            else system_message p # py_slice_from rest (1 - max_messages h))"
  using assms filter_non_system [OF assms(2)]
  by (simp add: trim_if_needed_def Let_def system_message_def)

lemma py_slice_from_is_drop: "\<exists>k. py_slice_from xs i = drop k xs"
  by (auto simp: py_slice_from_def)

lemma list_all_drop: "list_all P xs \<Longrightarrow> list_all P (drop k xs)"
  by (metis append_take_drop_id list_all_append)

lemma append_trim_headed:
  assumes "headed p h" "msg_role m \<noteq> System"
  shows "headed p (trim_if_needed (h\<lparr>messages := messages h @ [m]\<rparr>))
         \<and> (\<exists>rest k. messages h = system_message p # rest \<and>
               messages (trim_if_needed (h\<lparr>messages := messages h @ [m]\<rparr>))
                 = system_message p # drop k (rest @ [m]))
         \<and> (2 \<le> max_messages h \<longrightarrow>
               int (length (messages (trim_if_needed (h\<lparr>messages := messages h @ [m]\<rparr>))))
                 \<le> max_messages h)"
proof -
  from assms(1) obtain rest where
    h: "messages h = system_message p # rest" "list_all (\<lambda>x. msg_role x \<noteq> System) rest"
    by (auto simp: headed_def split: list.splits)
  let ?h = "h\<lparr>messages := messages h @ [m]\<rparr>"
  have m1: "messages ?h = system_message p # (rest @ [m])" using h by simp
  have m2: "list_all (\<lambda>x. msg_role x \<noteq> System) (rest @ [m])" using h assms(2) by simp
  note sh = trim_headed_shape [OF m1 m2]
  obtain k where k: "py_slice_from (rest @ [m]) (1 - max_messages h) = drop k (rest @ [m])"
    using py_slice_from_is_drop by blast
  have a: "headed p (trim_if_needed ?h)"
    using sh m2 k list_all_drop [OF m2, of k] by (auto simp: headed_def)
  have b: "\<exists>k. messages (trim_if_needed ?h) = system_message p # drop k (rest @ [m])"
  proof (cases "int (length (rest @ [m])) + 1 \<le> max_messages ?h")
    case True
    then have "messages (trim_if_needed ?h) = system_message p # drop 0 (rest @ [m])"
      using sh by simp
    then show ?thesis by blast
  next
    case False
    then show ?thesis using sh k by auto
  qed
  have c: "2 \<le> max_messages h \<longrightarrow> int (length (messages (trim_if_needed ?h))) \<le> max_messages h"
    using sh by (auto simp: py_slice_from_def)
  show ?thesis using a b c h(1) by blast
qed

text \<open>
  From the cap 2 on the trimming does what its documentation says: after any sequence of
  appends of messages that are not system messages, the system message is still the first
  message, no other system message exists, and the length is at most the cap. Each append
  keeps the system message and a suffix of the other messages (\<open>append_trim_headed\<close>), so
  the oldest messages are dropped first and nothing is reordered or duplicated.
\<close>

lemma trimming_invariant_from_cap_two:
  assumes "p \<noteq> []" "2 \<le> cap"
    and "list_all (\<lambda>op. msg_role (appended_message op) \<noteq> System) ops"
  shows "headed p (foldl apply_append (ConversationHistory (Some p) cap) ops)
         \<and> int (length (messages (foldl apply_append (ConversationHistory (Some p) cap) ops))) \<le> cap"
proof -
  have "headed p h \<and> max_messages h = cap \<and> int (length (messages h)) \<le> cap \<Longrightarrow>
        list_all (\<lambda>op. msg_role (appended_message op) \<noteq> System) ops \<Longrightarrow>
        headed p (foldl apply_append h ops) \<and> int (length (messages (foldl apply_append h ops))) \<le> cap" for h
  proof (induction ops arbitrary: h)
    case Nil
    then show ?case by simp
  next
    case (Cons op ops)
    from Cons.prems have ns: "msg_role (appended_message op) \<noteq> System" by simp
    from Cons.prems have hd: "headed p h" and mc: "max_messages h = cap" by simp_all
    have "headed p (apply_append h op) \<and> max_messages (apply_append h op) = cap
          \<and> int (length (messages (apply_append h op))) \<le> cap"
      using append_trim_headed [OF hd ns] mc assms(2) by (simp add: apply_append_eq)
    then show ?case using Cons.IH [of "apply_append h op"] Cons.prems by simp
  qed
  moreover have "headed p (ConversationHistory (Some p) cap)"
    using assms(1) by (simp add: headed_def ConversationHistory_def)
  moreover have "max_messages (ConversationHistory (Some p) cap) = cap"
    by (simp add: ConversationHistory_def)
  moreover have "int (length (messages (ConversationHistory (Some p) cap))) \<le> cap"
    using assms by (simp add: ConversationHistory_def)
  ultimately show ?thesis using assms(3) by blast
qed

subsection \<open>What the loop changes\<close>

lemma same_setup_refl [simp]: "same_setup a a"
  by (simp add: same_setup_def)

lemma same_setup_trans: "same_setup a b \<Longrightarrow> same_setup b c \<Longrightarrow> same_setup a c"
  by (simp add: same_setup_def)

lemma max_messages_adds [simp]:
  "max_messages (add_user_message c h) = max_messages h"
  "max_messages (add_assistant_message c h) = max_messages h"
  "max_messages (add_assistant_tool_calls m h) = max_messages h"
  "max_messages (add_tool_result i n c h) = max_messages h"
  by (simp_all add: add_user_message_def add_assistant_message_def add_assistant_tool_calls_def
      add_tool_result_def)

lemma lookup_and_execute_effect:
  assumes "lookup_and_execute a tname args = (r, a')"
  shows "same_setup a a' \<and> client_state a' = client_state a
         \<and> conversation a' = conversation a
         \<and> (\<exists>evs. trace a' = trace a @ evs \<and> tool_events evs)"
  using assms
  by (auto simp: lookup_and_execute_def emit_def same_setup_def tool_events_def
      split: sum.splits option.splits)

lemma emit_tool_event_effect:
  assumes "\<not> is_backend_call ev"
  shows "same_setup a (if b then emit ev a else a)
         \<and> client_state (if b then emit ev a else a) = client_state a
         \<and> conversation (if b then emit ev a else a) = conversation a
         \<and> (\<exists>evs. trace (if b then emit ev a else a) = trace a @ evs \<and> tool_events evs)"
  using assms by (simp add: same_setup_def emit_def tool_events_def)

text \<open>
  A dispatch changes the trace by tool events and the history by at most one tool
  message: when it raises, the history is as before; when it completes, a result was
  recorded under the call's id and name.
\<close>

lemma dispatch_tool_call_effect:
  assumes "dispatch_tool_call a tc = (r, a')"
  shows "same_setup a a' \<and> client_state a' = client_state a
         \<and> (\<exists>evs. trace a' = trace a @ evs \<and> tool_events evs)
         \<and> (case r of
               Inl e \<Rightarrow> conversation a' = conversation a
             | Inr u \<Rightarrow>
                 \<exists>c. conversation a' = add_tool_result (tc_id tc) (tc_name tc) c (conversation a))"
proof (cases "decode_args (lib a) (tc_arguments tc)")
  case (Inl e)
  then have "r = Inl e" "a' = a"
    using assms by (simp_all add: dispatch_tool_call_def)
  then show ?thesis by (simp add: tool_events_def)
next
  case (Inr args)
  let ?a1 = "if on_tool_start a \<noteq> None then emit (OnToolStart (tc_name tc) args) a else a"
  from emit_tool_event_effect [of "OnToolStart (tc_name tc) args" a "on_tool_start a \<noteq> None"]
  obtain evs0 where
    s1: "same_setup a ?a1" "client_state ?a1 = client_state a"
        "conversation ?a1 = conversation a" "trace ?a1 = trace a @ evs0" "tool_events evs0"
    by auto
  show ?thesis
  proof (cases "observe (on_tool_start a) (tc_name tc) args")
    case (Some e)
    then have "r = Inl e" "a' = ?a1"
      using assms Inr by (simp_all add: dispatch_tool_call_def Let_def)
    then show ?thesis using s1 by auto
  next
    case None
    obtain res a2 where le: "lookup_and_execute ?a1 (tc_name tc) args = (res, a2)"
      by (cases "lookup_and_execute ?a1 (tc_name tc) args")
    from lookup_and_execute_effect [OF le] obtain evs1 where
      e: "same_setup ?a1 a2" "client_state a2 = client_state ?a1"
         "conversation a2 = conversation ?a1" "trace a2 = trace ?a1 @ evs1" "tool_events evs1"
      by blast
    have s2: "same_setup a a2" "client_state a2 = client_state a"
        "conversation a2 = conversation a" "trace a2 = trace a @ (evs0 @ evs1)"
        "tool_events (evs0 @ evs1)"
      using s1 e same_setup_trans [OF s1(1) e(1)] by (simp_all add: tool_events_def)
    show ?thesis
    proof (cases res)
      case (Inl ex)
      then have "r = Inl ex" "a' = a2"
        using assms Inr None le by (simp_all add: dispatch_tool_call_def Let_def)
      then show ?thesis using s2 by auto
    next
      case r2: (Inr result)
      let ?res = "truncate_result (max_result_length a2) result"
      let ?a3 = "if on_tool_end a2 \<noteq> None then emit (OnToolEnd (tc_name tc) ?res) a2 else a2"
      from emit_tool_event_effect [of "OnToolEnd (tc_name tc) ?res" a2 "on_tool_end a2 \<noteq> None"]
      obtain evs2 where
        e3: "same_setup a2 ?a3" "client_state ?a3 = client_state a2"
            "conversation ?a3 = conversation a2" "trace ?a3 = trace a2 @ evs2" "tool_events evs2"
        by auto
      have s3: "same_setup a ?a3" "client_state ?a3 = client_state a"
          "conversation ?a3 = conversation a" "trace ?a3 = trace a @ ((evs0 @ evs1) @ evs2)"
          "tool_events ((evs0 @ evs1) @ evs2)"
        using s2 e3 same_setup_trans [OF s2(1) e3(1)] by (simp_all add: tool_events_def)
      show ?thesis
      proof (cases "observe (on_tool_end a2) (tc_name tc) ?res")
        case (Some e)
        then have "r = Inl e" "a' = ?a3"
          using assms Inr None le r2 by (simp_all add: dispatch_tool_call_def Let_def)
        then show ?thesis using s3 by auto
      next
        case n2: None
        let ?a4 = "?a3\<lparr>conversation :=
                        add_tool_result (tc_id tc) (tc_name tc) ?res (conversation ?a3)\<rparr>"
        have ra: "r = Inr ()" "a' = ?a4"
          using assms Inr None le r2 n2 by (simp_all add: dispatch_tool_call_def Let_def)
        have "same_setup ?a3 ?a4" "client_state ?a4 = client_state ?a3" "trace ?a4 = trace ?a3"
          by (simp_all add: same_setup_def)
        then have "same_setup a ?a4" "client_state ?a4 = client_state a"
            "trace ?a4 = trace a @ ((evs0 @ evs1) @ evs2)"
          using s3 same_setup_trans [OF s3(1)] by simp_all
        moreover have "conversation ?a4
            = add_tool_result (tc_id tc) (tc_name tc) ?res (conversation a)"
          using s3(3) by simp
        ultimately show ?thesis using ra s3(5) by auto
      qed
    qed
  qed
qed

lemma dispatch_all_effect:
  "dispatch_all a tcs = (r, a') \<Longrightarrow>
     same_setup a a' \<and> client_state a' = client_state a
     \<and> (\<exists>evs. trace a' = trace a @ evs \<and> tool_events evs)"
proof (induction tcs arbitrary: a)
  case Nil
  then show ?case by (simp add: tool_events_def)
next
  case (Cons tc tcs)
  obtain r1 a1 where d: "dispatch_tool_call a tc = (r1, a1)"
    by (cases "dispatch_tool_call a tc")
  from dispatch_tool_call_effect [OF d] have
    e1: "same_setup a a1 \<and> client_state a1 = client_state a
         \<and> (\<exists>evs. trace a1 = trace a @ evs \<and> tool_events evs)"
    by blast
  show ?case
  proof (cases r1)
    case (Inl ex)
    then have "a' = a1" using Cons.prems d by simp
    then show ?thesis using e1 by simp
  next
    case (Inr u)
    then have "dispatch_all a1 tcs = (r, a')" using Cons.prems d by simp
    from Cons.IH [OF this] e1 show ?thesis
      using same_setup_trans [of a a1 a'] by (auto simp: tool_events_def)
  qed
qed

lemma run_iterations_Suc_cases:
  assumes "run_iterations (Suc n) tools a = (r, a')"
  obtains
    (raised) e s' where
      "client a (client_state a) (build_kwargs tools a) = (Inl e, s')"
      "r = Inl (completion_handler e)"
      "a' = emit (BackendRaised e) (a\<lparr>client_state := s'\<rparr>)"
  | (empty) s' where
      "client a (client_state a) (build_kwargs tools a) = (Inr [], s')"
      "r = Inl (Exn IndexError ''list index out of range'' None)"
      "a' = after_response a s' []"
  | (unparsed) choice rest s' e where
      "client a (client_state a) (build_kwargs tools a) = (Inr (choice # rest), s')"
      "tool_calls_of (lib a) choice = Inl e"
      "r = Inl e"
      "a' = after_response a s' (choice # rest)"
  | (failed) choice rest s' tcs e where
      "client a (client_state a) (build_kwargs tools a) = (Inr (choice # rest), s')"
      "tool_calls_of (lib a) choice = Inr tcs" "tcs \<noteq> []"
      "dispatch_all (with_tool_calls (after_response a s' (choice # rest)) tcs) tcs = (Inl e, a')"
      "r = Inl e"
  | (continued) choice rest s' tcs a3 where
      "client a (client_state a) (build_kwargs tools a) = (Inr (choice # rest), s')"
      "tool_calls_of (lib a) choice = Inr tcs" "tcs \<noteq> []"
      "dispatch_all (with_tool_calls (after_response a s' (choice # rest)) tcs) tcs = (Inr (), a3)"
      "run_iterations n tools a3 = (r, a')"
  | (final) choice rest s' where
      "client a (client_state a) (build_kwargs tools a) = (Inr (choice # rest), s')"
      "tool_calls_of (lib a) choice = Inr []"
      "r = Inr (py_strip (final_content choice))"
      "a' = (if final_content choice \<noteq> []
             then (after_response a s' (choice # rest))\<lparr>conversation :=
                     add_assistant_message (final_content choice)
                       (conversation (after_response a s' (choice # rest)))\<rparr>
             else after_response a s' (choice # rest))"
proof -
  obtain res s' where c: "client a (client_state a) (build_kwargs tools a) = (res, s')"
    by (cases "client a (client_state a) (build_kwargs tools a)")
  show thesis
  proof (cases res)
    case (Inl e)
    with assms c show thesis
      by (intro raised [of e s']) (simp_all add: Let_def)
  next
    case (Inr response)
    show thesis
    proof (cases response)
      case Nil
      with assms c Inr show thesis
        by (intro empty [of s']) (simp_all add: Let_def after_response_def)
    next
      case (Cons choice rest)
      have l: "lib (emit (BackendReturned (choice # rest)) (a\<lparr>client_state := s'\<rparr>)) = lib a"
        by (simp add: emit_def)
      show thesis
      proof (cases "tool_calls_of (lib a) choice")
        case pf: (Inl e)
        then have "parse_tool_calls (lib a) choice = Inl e"
          by (auto simp: tool_calls_of_def split: sum.splits option.splits)
        with assms c Inr Cons pf show thesis
          by (intro unparsed [of choice rest s' e])
             (simp_all add: Let_def after_response_def l)
      next
        case ps: (Inr tcs)
        show thesis
        proof (cases tcs)
          case Nil
          with ps have "parse_tool_calls (lib a) choice = Inr None
                        \<or> parse_tool_calls (lib a) choice = Inr (Some [])"
            by (auto simp: tool_calls_of_def split: sum.splits option.splits)
          with assms c Inr Cons ps Nil show thesis
            by (intro final [of choice rest s'])
               (auto simp: Let_def after_response_def final_content_def l)
        next
          case tc: (Cons tc tcs')
          with ps have p: "parse_tool_calls (lib a) choice = Inr (Some (tc # tcs'))"
            by (auto simp: tool_calls_of_def split: sum.splits option.splits)
          let ?a2 = "with_tool_calls (after_response a s' (choice # rest)) (tc # tcs')"
          obtain r2 a3 where d: "dispatch_all ?a2 (tc # tcs') = (r2, a3)"
            by (cases "dispatch_all ?a2 (tc # tcs')")
          show thesis
          proof (cases r2)
            case (Inl e)
            with assms c Inr Cons p d ps tc show thesis
              by (intro failed [of choice rest s' tcs e])
                 (simp_all add: Let_def after_response_def with_tool_calls_def l
                    del: dispatch_all.simps)
          next
            case r2: (Inr u)
            with assms c Inr Cons p d ps tc show thesis
              by (intro continued [of choice rest s' tcs a3])
                 (simp_all add: Let_def after_response_def with_tool_calls_def l
                    del: dispatch_all.simps)
          qed
        qed
      qed
    qed
  qed
qed

lemma tool_events_not_raised: "tool_events evs \<Longrightarrow> list_all (\<lambda>e. \<not> is_backend_raised e) evs"
proof -
  have "\<not> is_backend_call e \<Longrightarrow> \<not> is_backend_raised e" for e
    by (cases e) simp_all
  then show "tool_events evs \<Longrightarrow> list_all (\<lambda>e. \<not> is_backend_raised e) evs"
    by (auto simp: tool_events_def list_all_iff)
qed

lemma backend_calls_tool_events: "tool_events evs \<Longrightarrow> backend_calls evs = 0"
  by (induction evs) (auto simp: tool_events_def backend_calls_def)

lemma backend_calls_append: "backend_calls (xs @ ys) = backend_calls xs + backend_calls ys"
  by (simp add: backend_calls_def)

lemma raise_is_last_no_raise:
  "list_all (\<lambda>e. \<not> is_backend_raised e) evs \<Longrightarrow> raise_is_last r evs"
  by (auto simp: raise_is_last_def list_all_iff)

lemma raise_is_last_prepend:
  assumes "list_all (\<lambda>e. \<not> is_backend_raised e) xs" "raise_is_last r evs"
  shows "raise_is_last r (xs @ evs)"
  unfolding raise_is_last_def
proof (intro allI impI)
  fix e assume "BackendRaised e \<in> set (xs @ evs)"
  with assms(1) have "BackendRaised e \<in> set evs"
    by (auto simp: list_all_iff)
  with assms(2) obtain pre where
    p: "evs = pre @ [BackendRaised e]" "list_all (\<lambda>x. \<not> is_backend_raised x) pre"
       "r = Inl (completion_handler e)"
    by (auto simp: raise_is_last_def)
  then have "xs @ evs = (xs @ pre) @ [BackendRaised e]
             \<and> list_all (\<lambda>x. \<not> is_backend_raised x) (xs @ pre)"
    using assms(1) by simp
  with p(3) show "(\<exists>pre. xs @ evs = pre @ [BackendRaised e]
                     \<and> list_all (\<lambda>x. \<not> is_backend_raised x) pre)
                  \<and> r = Inl (completion_handler e)"
    by blast
qed

lemma final_answer_of_prepend:
  "final_answer_of l evs = Some t \<Longrightarrow> final_answer_of l (xs @ evs) = Some t"
  by (cases "rev evs") (auto simp: final_answer_of_def)

lemma final_answer_of_response:
  "tool_calls_of l choice = Inr [] \<Longrightarrow>
     final_answer_of l [BackendReturned (choice # rest)] = Some (py_strip (final_content choice))"
  by (simp add: final_answer_of_def)

lemma after_response_effect:
  "same_setup a (after_response a s' resp)
   \<and> trace (after_response a s' resp) = trace a @ [BackendReturned resp]
   \<and> conversation (after_response a s' resp) = conversation a"
  by (simp add: after_response_def emit_def same_setup_def)

lemma with_tool_calls_effect:
  "same_setup a (with_tool_calls a tcs) \<and> trace (with_tool_calls a tcs) = trace a
   \<and> client_state (with_tool_calls a tcs) = client_state a"
  by (simp add: with_tool_calls_def same_setup_def)

lemma tool_round_start:
  "same_setup a (with_tool_calls (after_response a s' resp) tcs)
   \<and> trace (with_tool_calls (after_response a s' resp) tcs) = trace a @ [BackendReturned resp]
   \<and> conversation (with_tool_calls (after_response a s' resp) tcs)
       = add_assistant_tool_calls (assistant_tool_calls_message tcs) (conversation a)"
  by (simp add: with_tool_calls_def after_response_def emit_def same_setup_def)

text \<open>
  What a run of the loop leaves behind: the setup is unchanged; the run makes at most
  \<open>n\<close> backend calls; a failed backend call is the last event and the cause of the
  result; and a text that the loop returns is the stripped content of the response of
  the last backend call, which carries no tool call.
\<close>

lemma run_iterations_effect:
  "run_iterations n tools a = (r, a') \<Longrightarrow>
     same_setup a a' \<and>
     (\<exists>evs. trace a' = trace a @ evs \<and> backend_calls evs \<le> n \<and> raise_is_last r evs
        \<and> (\<forall>t. r = Inr t \<longrightarrow> final_answer_of (lib a) evs = Some t))"
proof (induction n arbitrary: a)
  case 0
  then have "a' = a" "\<forall>t. r \<noteq> Inr t" by auto
  moreover have "backend_calls [] \<le> 0 \<and> raise_is_last r []"
    by (simp add: backend_calls_def raise_is_last_def)
  ultimately show ?case by auto
next
  case (Suc n)
  from Suc.prems show ?case
  proof (cases rule: run_iterations_Suc_cases)
    case (raised e s')
    have "same_setup a a'" "trace a' = trace a @ [BackendRaised e]"
      using raised(3) by (simp_all add: same_setup_def emit_def)
    moreover have "backend_calls [BackendRaised e] \<le> Suc n"
      by (simp add: backend_calls_def)
    moreover have "raise_is_last r [BackendRaised e]"
      using raised(2) by (auto simp: raise_is_last_def)
    moreover have "\<forall>t. r \<noteq> Inr t" using raised(2) by simp
    ultimately show ?thesis by blast
  next
    case (empty s')
    have "same_setup a a'" "trace a' = trace a @ [BackendReturned []]"
      using empty(3) after_response_effect [of a s' "[]"] by simp_all
    moreover have "backend_calls [BackendReturned []] \<le> Suc n"
      by (simp add: backend_calls_def)
    moreover have "raise_is_last r [BackendReturned []]"
      by (simp add: raise_is_last_def)
    moreover have "\<forall>t. r \<noteq> Inr t" using empty(2) by simp
    ultimately show ?thesis by blast
  next
    case (unparsed choice rest s' e)
    have "same_setup a a'" "trace a' = trace a @ [BackendReturned (choice # rest)]"
      using unparsed(4) after_response_effect [of a s' "choice # rest"] by simp_all
    moreover have "backend_calls [BackendReturned (choice # rest)] \<le> Suc n"
      by (simp add: backend_calls_def)
    moreover have "raise_is_last r [BackendReturned (choice # rest)]"
      by (simp add: raise_is_last_def)
    moreover have "\<forall>t. r \<noteq> Inr t" using unparsed(3) by simp
    ultimately show ?thesis by blast
  next
    case (failed choice rest s' tcs e)
    let ?resp = "choice # rest"
    let ?a2 = "with_tool_calls (after_response a s' ?resp) tcs"
    from dispatch_all_effect [OF failed(4)] obtain tevs where
      d: "same_setup ?a2 a'" "trace a' = trace ?a2 @ tevs" "tool_events tevs"
      by blast
    have s: "same_setup a ?a2" and t: "trace ?a2 = trace a @ [BackendReturned ?resp]"
      using tool_round_start [of a s' ?resp tcs] by simp_all
    have "same_setup a a'" using s d(1) same_setup_trans by blast
    moreover have "trace a' = trace a @ (BackendReturned ?resp # tevs)"
      using d(2) t by simp
    moreover have "backend_calls (BackendReturned ?resp # tevs) \<le> Suc n"
      using backend_calls_tool_events [OF d(3)]
        backend_calls_append [of "[BackendReturned ?resp]" tevs]
      by (simp add: backend_calls_def)
    moreover have "raise_is_last r (BackendReturned ?resp # tevs)"
      using tool_events_not_raised [OF d(3)] by (intro raise_is_last_no_raise) simp
    moreover have "\<forall>t. r \<noteq> Inr t" using failed(5) by simp
    ultimately show ?thesis by blast
  next
    case (continued choice rest s' tcs a3)
    let ?resp = "choice # rest"
    let ?a2 = "with_tool_calls (after_response a s' ?resp) tcs"
    from dispatch_all_effect [OF continued(4)] obtain tevs where
      d: "same_setup ?a2 a3" "trace a3 = trace ?a2 @ tevs" "tool_events tevs"
      by blast
    from Suc.IH [OF continued(5)] obtain evs where
      ih: "same_setup a3 a'" "trace a' = trace a3 @ evs" "backend_calls evs \<le> n"
          "raise_is_last r evs" "\<forall>t. r = Inr t \<longrightarrow> final_answer_of (lib a3) evs = Some t"
      by blast
    have s: "same_setup a ?a2" and t: "trace ?a2 = trace a @ [BackendReturned ?resp]"
      using tool_round_start [of a s' ?resp tcs] by simp_all
    have s3: "same_setup a a3" using s d(1) same_setup_trans by blast
    then have l3: "lib a3 = lib a" by (simp add: same_setup_def)
    have "same_setup a a'" using s3 ih(1) same_setup_trans by blast
    moreover have "trace a' = trace a @ ((BackendReturned ?resp # tevs) @ evs)"
      using d(2) t ih(2) by simp
    moreover have "backend_calls ((BackendReturned ?resp # tevs) @ evs) \<le> Suc n"
      using backend_calls_tool_events [OF d(3)] ih(3)
        backend_calls_append [of "[BackendReturned ?resp]" "tevs @ evs"]
        backend_calls_append [of tevs evs]
      by (simp add: backend_calls_def)
    moreover have "raise_is_last r ((BackendReturned ?resp # tevs) @ evs)"
      using tool_events_not_raised [OF d(3)] ih(4) by (intro raise_is_last_prepend) simp_all
    moreover have "\<forall>t. r = Inr t \<longrightarrow>
        final_answer_of (lib a) ((BackendReturned ?resp # tevs) @ evs) = Some t"
      using ih(5) l3 final_answer_of_prepend by metis
    ultimately show ?thesis by blast
  next
    case (final choice rest s')
    have "same_setup a a'" "trace a' = trace a @ [BackendReturned (choice # rest)]"
      using final(4) after_response_effect [of a s' "choice # rest"]
      by (auto simp: same_setup_def)
    moreover have "backend_calls [BackendReturned (choice # rest)] \<le> Suc n"
      by (simp add: backend_calls_def)
    moreover have "raise_is_last r [BackendReturned (choice # rest)]"
      by (simp add: raise_is_last_def)
    moreover have "\<forall>t. r = Inr t \<longrightarrow>
        final_answer_of (lib a) [BackendReturned (choice # rest)] = Some t"
      using final(3) final_answer_of_response [OF final(2)] by simp
    ultimately show ?thesis by blast
  qed
qed

subsection \<open>The result of \<open>chat\<close>\<close>

lemma chat_unfold:
  "chat a message =
     (case fst (run_loop (with_user_message a message)) of
        Inr t \<Rightarrow> Inr t
      | Inl e \<Rightarrow>
          if exn_cls e = MaxIterationsError
          then Inr (exhaustion_text (conversation (snd (run_loop (with_user_message a message)))))
          else if is_exception (exn_cls e)
          then Inl (Exn AgentError (''Agent failed: '' @ exn_str e) (Some e))
          else Inl e,
      snd (run_loop (with_user_message a message)))"
  by (cases "run_loop (with_user_message a message)")
    (auto simp: chat_def with_user_message_def exhaustion_text_def Let_def
      split: sum.splits option.splits)

lemma with_user_message_effect:
  "same_setup a (with_user_message a message) \<and> trace (with_user_message a message) = trace a
   \<and> client_state (with_user_message a message) = client_state a"
  by (simp add: with_user_message_def same_setup_def)

lemma chat_effect:
  "same_setup a (snd (chat a message)) \<and>
   (\<exists>evs. trace (snd (chat a message)) = trace a @ evs
      \<and> backend_calls evs \<le> nat (max_iterations a)
      \<and> raise_is_last (fst (run_loop (with_user_message a message))) evs
      \<and> (\<forall>t. fst (run_loop (with_user_message a message)) = Inr t
            \<longrightarrow> final_answer_of (lib a) evs = Some t))"
proof -
  let ?a1 = "with_user_message a message"
  obtain r a2 where rl: "run_loop ?a1 = (r, a2)" by (cases "run_loop ?a1")
  then have "run_iterations (nat (max_iterations ?a1))
       (if length (registry ?a1) > 0 then Some (to_openai_tools (registry ?a1)) else None) ?a1 = (r, a2)"
    by (simp add: run_loop_def)
  from run_iterations_effect [OF this] obtain evs where
    e: "same_setup ?a1 a2" "trace a2 = trace ?a1 @ evs" "backend_calls evs \<le> nat (max_iterations ?a1)"
       "raise_is_last r evs" "\<forall>t. r = Inr t \<longrightarrow> final_answer_of (lib ?a1) evs = Some t"
    by blast
  have "snd (chat a message) = a2" using rl by (simp add: chat_unfold)
  moreover have "max_iterations ?a1 = max_iterations a" "lib ?a1 = lib a"
    by (simp_all add: with_user_message_def)
  ultimately show ?thesis
    using e rl with_user_message_effect [of a message] same_setup_trans [of a ?a1 a2]
    by auto
qed

lemma new_events_append: "trace a' = trace a @ evs \<Longrightarrow> new_events a a' = evs"
  by (simp add: new_events_def)

text \<open>
  A \<open>chat\<close> call makes at most \<open>max(0, max_iterations)\<close> backend calls, whatever the
  backend answers.
\<close>

lemma chat_backend_calls_bound:
  "backend_calls (new_events a (snd (chat a message))) \<le> nat (max_iterations a)"
  using chat_effect [of a message] new_events_append by metis






lemma exhaustion_text_not_empty: "exhaustion_text h \<noteq> []"
  by (simp add: exhaustion_text_def stopped_notice_def rephrase_message_def split: option.splits)

text \<open>
  C9, as the code has it. \<open>chat\<close> raises an exception or returns a text. When the loop
  ended in exhaustion, the text is that of the exhaustion path and is not empty.
  Otherwise the last event of the call is a response of the backend whose first message
  carries no tool call, and the text is the content of this message, stripped: it is
  empty when that content is \<open>None\<close>, empty or white space only.
\<close>

theorem chat_text_or_failure:
  "(\<exists>x. fst (chat a message) = Inl x)
   \<or> (\<exists>t. fst (chat a message) = Inr t
        \<and> (if exhausted (fst (run_loop (with_user_message a message)))
            then t = exhaustion_text (conversation (snd (chat a message))) \<and> t \<noteq> []
            else final_answer_of (lib a) (new_events a (snd (chat a message))) = Some t))"
proof (cases "fst (run_loop (with_user_message a message))")
  case (Inr t)
  from chat_effect [of a message] obtain evs where
    e: "trace (snd (chat a message)) = trace a @ evs"
       "\<forall>t. fst (run_loop (with_user_message a message)) = Inr t
            \<longrightarrow> final_answer_of (lib a) evs = Some t"
    by blast
  have "new_events a (snd (chat a message)) = evs"
    using e(1) by (rule new_events_append)
  then have "final_answer_of (lib a) (new_events a (snd (chat a message))) = Some t"
    using e(2) Inr by simp
  moreover have "fst (chat a message) = Inr t"
    using Inr by (simp add: chat_unfold)
  moreover have "\<not> exhausted (fst (run_loop (with_user_message a message)))"
    using Inr by (simp add: exhausted_def)
  ultimately show ?thesis by simp
next
  case (Inl e)
  then show ?thesis
    by (simp add: chat_unfold exhausted_def exhaustion_text_not_empty)
qed

lemma chat_blank_agent:
  "chat blank_agent ''hi''
     = (Inr [], after_response (with_user_message blank_agent ''hi'') ()
                  [\<lparr>cm_content = None, cm_tool_calls = None\<rparr>])"
  by (simp add: chat_unfold run_loop_def with_user_message_def blank_agent_def Agent_def
      numeral_3_eq_3 blank_backend_def emit_def Let_def parse_tool_calls_def py_strip_def
      after_response_def)

text \<open>
  C9 as stated fails: when the backend answers with no tool call and no content,
  \<open>chat\<close> returns the empty string after this one response.
\<close>

theorem chat_empty_text_counterexample:
  "fst (chat blank_agent ''hi'') = Inr []
   \<and> new_events blank_agent (snd (chat blank_agent ''hi''))
       = [BackendReturned [\<lparr>cm_content = None, cm_tool_calls = None\<rparr>]]"
  by (simp add: chat_blank_agent new_events_def after_response_def emit_def
      with_user_message_def)

theorem chat_text_or_failure_witness:
  "fst (chat blank_agent ''hi'') = Inr []
   \<and> final_answer_of (lib blank_agent) (new_events blank_agent (snd (chat blank_agent ''hi'')))
       = Some []"
proof -
  have r: "fst (run_loop (with_user_message blank_agent ''hi'')) = Inr []"
    by (simp add: run_loop_def with_user_message_def blank_agent_def Agent_def
      numeral_3_eq_3 blank_backend_def emit_def Let_def parse_tool_calls_def py_strip_def)
  from chat_text_or_failure [of blank_agent "''hi''"] show ?thesis
    by (simp add: chat_blank_agent r exhausted_def)
qed

subsection \<open>Exhaustion of the iteration bound\<close>

lemma fst_dispatch_tool_call:
  "fst (dispatch_tool_call a tc) =
     (case raw_result a tc of
        Inl e \<Rightarrow> Inl e
      | Inr r \<Rightarrow>
          (case observe (on_tool_end a) (tc_name tc) (truncate_result (max_result_length a) r) of
             Some e \<Rightarrow> Inl e
           | None \<Rightarrow> Inr ()))"
proof (cases "raw_result a tc")
  case (Inr r)
  from dispatch_tool_call_records [OF Inr] show ?thesis
    using Inr by (auto split: option.splits)
next
  case (Inl e)
  show ?thesis
  proof (cases "decode_args (lib a) (tc_arguments tc)")
    case d: (Inl e')
    then show ?thesis using Inl by (simp add: dispatch_tool_call_def raw_result_def)
  next
    case d: (Inr args)
    let ?a1 = "if on_tool_start a \<noteq> None then emit (OnToolStart (tc_name tc) args) a else a"
    show ?thesis
    proof (cases "observe (on_tool_start a) (tc_name tc) args")
      case (Some e')
      then show ?thesis using Inl d by (simp add: dispatch_tool_call_def raw_result_def Let_def)
    next
      case None
      have "fst (lookup_and_execute ?a1 (tc_name tc) args)
              = fst (lookup_and_execute a (tc_name tc) args)"
        by (rule fst_lookup_and_execute_setup) (simp_all add: emit_def)
      then have "fst (lookup_and_execute ?a1 (tc_name tc) args) = Inl e"
        using Inl d None by (simp add: raw_result_def)
      then show ?thesis
        using Inl d None
        by (cases "lookup_and_execute ?a1 (tc_name tc) args")
           (simp add: dispatch_tool_call_def Let_def)
    qed
  qed
qed

lemma raw_result_setup:
  "same_setup a a' \<Longrightarrow> raw_result a' tc = raw_result a tc"
  using fst_lookup_and_execute_setup [of a' a]
  by (simp add: raw_result_def same_setup_def split: sum.splits option.splits)

lemma dispatch_completes_setup:
  assumes "same_setup a a'"
  shows "dispatch_completes a' tc = dispatch_completes a tc"
proof -
  have "on_tool_end a' = on_tool_end a" "max_result_length a' = max_result_length a"
    using assms by (simp_all add: same_setup_def)
  then have "fst (dispatch_tool_call a' tc) = fst (dispatch_tool_call a tc)"
    unfolding fst_dispatch_tool_call raw_result_setup [OF assms]
    by (cases "raw_result a tc") simp_all
  then show ?thesis by (simp add: dispatch_completes_def)
qed

lemma dispatch_all_completes:
  "list_all (dispatch_completes a) tcs \<Longrightarrow> \<exists>a'. dispatch_all a tcs = (Inr (), a')"
proof (induction tcs arbitrary: a)
  case Nil
  then show ?case by simp
next
  case (Cons tc tcs)
  then have "fst (dispatch_tool_call a tc) = Inr ()"
    by (simp add: dispatch_completes_def)
  then obtain a1 where d: "dispatch_tool_call a tc = (Inr (), a1)"
    by (cases "dispatch_tool_call a tc") simp
  from dispatch_tool_call_effect [OF d] have "same_setup a a1" by blast
  then have "dispatch_completes a1 = dispatch_completes a"
    using dispatch_completes_setup by blast
  with Cons.prems have "list_all (dispatch_completes a1) tcs" by simp
  from Cons.IH [OF this] d show ?case by simp
qed

lemma run_iterations_continue:
  assumes "client a (client_state a) (build_kwargs tools a) = (Inr (choice # rest), s')"
    and "tool_calls_of (lib a) choice = Inr tcs" and "tcs \<noteq> []"
    and "dispatch_all (with_tool_calls (after_response a s' (choice # rest)) tcs) tcs = (Inr (), a3)"
  shows "run_iterations (Suc n) tools a = run_iterations n tools a3"
proof -
  obtain tc tcs' where t: "tcs = tc # tcs'"
    using assms(3) by (cases tcs) auto
  then have p: "parse_tool_calls (lib a) choice = Inr (Some (tc # tcs'))"
    using assms(2) by (auto simp: tool_calls_of_def split: sum.splits option.splits)
  have l: "lib (emit (BackendReturned (choice # rest)) (a\<lparr>client_state := s'\<rparr>)) = lib a"
    by (simp add: emit_def)
  show ?thesis
    using assms(1) assms(4) p t
    by (simp add: Let_def after_response_def with_tool_calls_def l del: dispatch_all.simps)
qed

text \<open>
  When the backend answers every call with at least one tool call, and the dispatch of
  each of these tool calls raises nothing, the loop makes exactly \<open>n\<close> backend calls in
  \<open>n\<close> iterations and raises \<open>MaxIterationsError\<close>.
\<close>

lemma run_iterations_exhausts:
  assumes inv: "\<forall>b s req. same_setup a0 b \<longrightarrow>
                  (\<exists>choice rest s' tcs. client a0 s req = (Inr (choice # rest), s')
                     \<and> tool_calls_of (lib a0) choice = Inr tcs \<and> tcs \<noteq> []
                     \<and> list_all (dispatch_completes b) tcs)"
  shows "same_setup a0 a \<Longrightarrow>
           \<exists>a' evs. run_iterations n tools a
                       = (Inl (Exn MaxIterationsError
                                 (''Agent exceeded '' @ show_int (max_iterations a) @ '' iterations'')
                                 None), a')
                    \<and> trace a' = trace a @ evs \<and> backend_calls evs = n"
proof (induction n arbitrary: a)
  case 0
  then show ?case by (simp add: backend_calls_def)
next
  case (Suc n)
  have f: "client a = client a0" "lib a = lib a0"
    using Suc.prems by (simp_all add: same_setup_def)
  let ?P = "\<lambda>choice rest s' tcs b.
       client a0 (client_state a) (build_kwargs tools a) = (Inr (choice # rest), s')
       \<and> tool_calls_of (lib a0) choice = Inr tcs \<and> tcs \<noteq> []
       \<and> list_all (dispatch_completes b) tcs"
  from inv Suc.prems obtain choice rest s' tcs0 where c0: "?P choice rest s' tcs0 a"
    by blast
  let ?resp = "choice # rest"
  let ?a2 = "with_tool_calls (after_response a s' ?resp) tcs0"
  have s2: "same_setup a ?a2" and t2: "trace ?a2 = trace a @ [BackendReturned ?resp]"
    using tool_round_start [of a s' ?resp tcs0] by simp_all
  have s02: "same_setup a0 ?a2" using Suc.prems s2 same_setup_trans by blast
  have "dispatch_completes ?a2 = dispatch_completes a"
    using dispatch_completes_setup [OF s2] by blast
  with c0 have "list_all (dispatch_completes ?a2) tcs0" by simp
  from dispatch_all_completes [OF this] obtain a3 where
    d: "dispatch_all ?a2 tcs0 = (Inr (), a3)" by blast
  from dispatch_all_effect [OF d] obtain tevs where
    e: "same_setup ?a2 a3" "trace a3 = trace ?a2 @ tevs" "tool_events tevs"
    by blast
  have s3: "same_setup a0 a3" using s02 e(1) same_setup_trans by blast
  have m3: "max_iterations a3 = max_iterations a"
    using s2 e(1) by (simp add: same_setup_def)
  from Suc.IH [OF s3] obtain a' evs where
    ih: "run_iterations n tools a3
           = (Inl (Exn MaxIterationsError
                     (''Agent exceeded '' @ show_int (max_iterations a3) @ '' iterations'') None), a')"
        "trace a' = trace a3 @ evs" "backend_calls evs = n"
    by blast
  have step: "run_iterations (Suc n) tools a = run_iterations n tools a3"
    using c0 d f by (intro run_iterations_continue [of a tools choice rest s' tcs0]) simp_all
  have "trace a' = trace a @ ((BackendReturned ?resp # tevs) @ evs)"
    using ih(2) e(2) t2 by simp
  moreover have "backend_calls ((BackendReturned ?resp # tevs) @ evs) = Suc n"
    using backend_calls_tool_events [OF e(3)] ih(3)
      backend_calls_append [of "[BackendReturned ?resp]" "tevs @ evs"]
      backend_calls_append [of tevs evs]
    by (simp add: backend_calls_def)
  ultimately show ?case using step ih(1) m3 by metis
qed

text \<open>
  The same for \<open>chat\<close>: under these conditions the call makes exactly
  \<open>max(0, max_iterations)\<close> backend calls and returns the text of the exhaustion path.
\<close>

lemma chat_exhausts_when_dispatch_completes:
  assumes "\<forall>b s req. same_setup a b \<longrightarrow>
             (\<exists>choice rest s' tcs. client a s req = (Inr (choice # rest), s')
                \<and> tool_calls_of (lib a) choice = Inr tcs \<and> tcs \<noteq> []
                \<and> list_all (dispatch_completes b) tcs)"
  shows "backend_calls (new_events a (snd (chat a message))) = nat (max_iterations a)
         \<and> fst (run_loop (with_user_message a message))
             = Inl (Exn MaxIterationsError
                      (''Agent exceeded '' @ show_int (max_iterations a) @ '' iterations'') None)
         \<and> fst (chat a message)
             = Inr (exhaustion_text (conversation (snd (chat a message))))"
proof -
  let ?a1 = "with_user_message a message"
  let ?tools = "if length (registry ?a1) > 0 then Some (to_openai_tools (registry ?a1)) else None"
  have s1: "same_setup a ?a1" and f: "max_iterations ?a1 = max_iterations a" "trace ?a1 = trace a"
    using with_user_message_effect [of a message] by (simp_all add: with_user_message_def)
  from run_iterations_exhausts [OF assms s1, of "nat (max_iterations a)" ?tools]
  obtain a' evs where
    r: "run_loop ?a1 = (Inl (Exn MaxIterationsError
                     (''Agent exceeded '' @ show_int (max_iterations a) @ '' iterations'') None), a')"
       "trace a' = trace a @ evs" "backend_calls evs = nat (max_iterations a)"
    by (auto simp: run_loop_def f)
  have sc: "snd (chat a message) = a'"
    using r(1) by (simp add: chat_unfold)
  have "backend_calls (new_events a (snd (chat a message))) = nat (max_iterations a)"
    using r(2) r(3) sc new_events_append by metis
  moreover have "fst (run_loop ?a1) = Inl (Exn MaxIterationsError
                       (''Agent exceeded '' @ show_int (max_iterations a) @ '' iterations'') None)"
    using r(1) by simp
  moreover have "fst (chat a message) = Inr (exhaustion_text (conversation (snd (chat a message))))"
    using r(1) by (simp add: chat_unfold)
  ultimately show ?thesis by simp
qed

lemma chat_list_arguments_agent:
  "chat list_arguments_agent ''hi''
     = (Inl (Exn AgentError ''Agent failed: argument after ** must be a mapping, not list''
               (Some (Exn TypeError ''argument after ** must be a mapping, not list'' None))),
        with_tool_calls
          (after_response (with_user_message list_arguments_agent ''hi'') ()
             [\<lparr>cm_content = None,
               cm_tool_calls = Some [\<lparr>ntc_id = ''c1'', ntc_name = ''echo'',
                                       ntc_arguments = ''[1]''\<rparr>]\<rparr>])
          [\<lparr>tc_id = ''c1'', tc_name = PStr ''echo'', tc_arguments = PStr ''[1]''\<rparr>])"
  by (simp add: chat_unfold run_loop_def with_user_message_def list_arguments_agent_def
      Agent_def numeral_3_eq_3 native_backend_def emit_def Let_def parse_tool_calls_def
      native_call_def dispatch_tool_call_def lookup_and_execute_def registry_get_def
      register_def fixed_tool_def decode_args_def ref_lib_def ref_loads_list bind_kwargs_def
      after_response_def with_tool_calls_def to_openai_tools_def observe_def is_exception_def)

text \<open>
  C1. With \<open>max_iterations = 3\<close> and a backend that answers every call with a call of
  the registered tool \<open>echo\<close> whose argument payload is the JSON text \<open>[1]\<close>, a
  \<open>chat\<close> call makes one backend call and raises \<open>AgentError\<close>: the payload decodes to
  a list, \<open>tool.execute(**args)\<close> raises \<open>TypeError\<close> before the body of \<open>execute\<close> and
  its \<open>try\<close> are entered, and the exhaustion path is not taken.
\<close>

theorem list_arguments_end_the_loop:
  "max_iterations list_arguments_agent = 3
   \<and> client list_arguments_agent
       = native_backend \<lparr>ntc_id = ''c1'', ntc_name = ''echo'', ntc_arguments = ''[1]''\<rparr>
   \<and> backend_calls (new_events list_arguments_agent (snd (chat list_arguments_agent ''hi''))) = 1
   \<and> fst (chat list_arguments_agent ''hi'')
       = Inl (Exn AgentError ''Agent failed: argument after ** must be a mapping, not list''
                (Some (Exn TypeError ''argument after ** must be a mapping, not list'' None)))"
proof (intro conjI)
  show "max_iterations list_arguments_agent = 3"
    by (simp add: list_arguments_agent_def Agent_def)
  show "client list_arguments_agent
       = native_backend \<lparr>ntc_id = ''c1'', ntc_name = ''echo'', ntc_arguments = ''[1]''\<rparr>"
    by (simp add: list_arguments_agent_def Agent_def)
  show "backend_calls (new_events list_arguments_agent (snd (chat list_arguments_agent ''hi''))) = 1"
    by (simp add: chat_list_arguments_agent new_events_def with_tool_calls_def after_response_def
        emit_def with_user_message_def backend_calls_def)
  show "fst (chat list_arguments_agent ''hi'')
       = Inl (Exn AgentError ''Agent failed: argument after ** must be a mapping, not list''
                (Some (Exn TypeError ''argument after ** must be a mapping, not list'' None)))"
    by (simp add: chat_list_arguments_agent)
qed

lemma show_int_2: "show_int 2 = ''2''"
  by (simp add: show_int_def show_nat.simps)

text \<open>
  A run of the general statement: a backend that always calls the unregistered tool
  \<open>nope\<close> is called twice when \<open>max_iterations = 2\<close>.
\<close>

lemma chat_unknown_tool_agent_exhausts:
  "backend_calls (new_events unknown_tool_agent (snd (chat unknown_tool_agent ''hi''))) = 2
   \<and> fst (run_loop (with_user_message unknown_tool_agent ''hi''))
       = Inl (Exn MaxIterationsError ''Agent exceeded 2 iterations'' None)"
proof -
  have f: "client unknown_tool_agent
             = native_backend \<lparr>ntc_id = ''c1'', ntc_name = ''nope'', ntc_arguments = ''{}''\<rparr>"
    "lib unknown_tool_agent = ref_lib" "registry unknown_tool_agent = []"
    "max_iterations unknown_tool_agent = 2" "on_tool_start unknown_tool_agent = None"
    "on_tool_end unknown_tool_agent = None"
    by (simp_all add: unknown_tool_agent_def Agent_def)
  have h: "\<forall>b s req. same_setup unknown_tool_agent b \<longrightarrow>
             (\<exists>choice rest s' tcs.
                client unknown_tool_agent s req = (Inr (choice # rest), s')
                \<and> tool_calls_of (lib unknown_tool_agent) choice = Inr tcs \<and> tcs \<noteq> []
                \<and> list_all (dispatch_completes b) tcs)"
    by (simp add: f native_backend_def tool_calls_of_def parse_tool_calls_def native_call_def
        dispatch_completes_def fst_dispatch_tool_call raw_result_def registry_get_def
        lookup_and_execute_def decode_args_def ref_lib_def ref_loads_empty_object observe_def
        same_setup_def)
  from chat_exhausts_when_dispatch_completes [OF h, of "''hi''"]
  show ?thesis by (simp add: f show_int_2)
qed

subsection \<open>The exhaustion path\<close>

lemma first_assistant_content_nonnull:
  "list_all assistant_text_ok ms \<Longrightarrow> first_assistant_content ms = first_nonnull_assistant ms"
  by (induction ms) (auto simp: assistant_text_ok_def)

lemma first_assistant_content_not_empty: "first_assistant_content ms \<noteq> Some []"
  by (induction ms) auto

lemma get_last_assistant_content_newest:
  "assistant_texts_nonempty (messages h) \<Longrightarrow>
     get_last_assistant_content h = newest_assistant_text (messages h)"
  by (simp add: get_last_assistant_content_def newest_assistant_text_def
      assistant_texts_nonempty_def first_assistant_content_nonnull)

lemma exhaustion_text_newest:
  assumes "assistant_texts_nonempty (messages h)"
  shows "exhaustion_text h =
           (case newest_assistant_text (messages h) of
              Some c \<Rightarrow> c @ stopped_notice
            | None \<Rightarrow> rephrase_message)"
proof -
  have "get_last_assistant_content h \<noteq> Some []"
    by (simp add: get_last_assistant_content_def first_assistant_content_not_empty)
  then show ?thesis
    using get_last_assistant_content_newest [OF assms]
    by (auto simp: exhaustion_text_def split: option.splits)
qed

lemma trim_assistant_texts:
  assumes "assistant_texts_nonempty (messages h)"
  shows "assistant_texts_nonempty (messages (trim_if_needed h))"
proof -
  obtain k where "py_slice_from (filter (\<lambda>m. msg_role m \<noteq> System) (messages h))
                    (- (max_messages h - int (length (filter (\<lambda>m. msg_role m = System) (messages h)))))
                  = drop k (filter (\<lambda>m. msg_role m \<noteq> System) (messages h))"
    using py_slice_from_is_drop by blast
  then show ?thesis
    using assms
    by (auto simp: trim_if_needed_def Let_def assistant_texts_nonempty_def list_all_iff
        dest: in_set_dropD)
qed

lemma append_assistant_texts:
  "assistant_texts_nonempty (messages h) \<Longrightarrow> assistant_text_ok m \<Longrightarrow>
     assistant_texts_nonempty (messages (trim_if_needed (h\<lparr>messages := messages h @ [m]\<rparr>)))"
  by (rule trim_assistant_texts) (simp add: assistant_texts_nonempty_def)

lemma adds_assistant_texts:
  assumes "assistant_texts_nonempty (messages h)"
  shows "assistant_texts_nonempty (messages (add_user_message c h))"
    and "c \<noteq> [] \<Longrightarrow> assistant_texts_nonempty (messages (add_assistant_message c h))"
    and "assistant_texts_nonempty (messages (add_tool_result i n c h))"
    and "assistant_texts_nonempty
           (messages (add_assistant_tool_calls (assistant_tool_calls_message tcs) h))"
  using assms
  by (simp_all add: add_user_message_def add_assistant_message_def add_tool_result_def
      add_assistant_tool_calls_def append_assistant_texts assistant_text_ok_def
      user_message_def assistant_message_def tool_message_def assistant_tool_calls_message_def)

lemma dispatch_tool_call_assistant_texts:
  assumes "dispatch_tool_call a tc = (r, a')"
    and "assistant_texts_nonempty (messages (conversation a))"
  shows "assistant_texts_nonempty (messages (conversation a'))"
proof (cases r)
  case (Inl e)
  with dispatch_tool_call_effect [OF assms(1)] have "conversation a' = conversation a"
    by simp
  then show ?thesis using assms(2) by simp
next
  case (Inr u)
  with dispatch_tool_call_effect [OF assms(1)] obtain c where
    "conversation a' = add_tool_result (tc_id tc) (tc_name tc) c (conversation a)"
    by auto
  then show ?thesis using adds_assistant_texts(3) [OF assms(2)] by simp
qed

lemma dispatch_all_assistant_texts:
  "dispatch_all a tcs = (r, a') \<Longrightarrow> assistant_texts_nonempty (messages (conversation a)) \<Longrightarrow>
     assistant_texts_nonempty (messages (conversation a'))"
proof (induction tcs arbitrary: a)
  case Nil
  then show ?case by simp
next
  case (Cons tc tcs)
  obtain r1 a1 where d: "dispatch_tool_call a tc = (r1, a1)"
    by (cases "dispatch_tool_call a tc")
  note i1 = dispatch_tool_call_assistant_texts [OF d Cons.prems(2)]
  show ?case
  proof (cases r1)
    case (Inl e)
    then show ?thesis using Cons.prems(1) d i1 by simp
  next
    case (Inr u)
    then have "dispatch_all a1 tcs = (r, a')" using Cons.prems(1) d by simp
    from Cons.IH [OF this i1] show ?thesis .
  qed
qed

lemma with_tool_calls_assistant_texts:
  "assistant_texts_nonempty (messages (conversation a)) \<Longrightarrow>
     assistant_texts_nonempty
       (messages (conversation (with_tool_calls (after_response a s' resp) tcs)))"
  by (simp add: with_tool_calls_def after_response_def emit_def adds_assistant_texts(4))

lemma run_iterations_assistant_texts:
  "run_iterations n tools a = (r, a') \<Longrightarrow> assistant_texts_nonempty (messages (conversation a)) \<Longrightarrow>
     assistant_texts_nonempty (messages (conversation a'))"
proof (induction n arbitrary: a)
  case 0
  then show ?case by simp
next
  case (Suc n)
  from Suc.prems(1) show ?case
  proof (cases rule: run_iterations_Suc_cases)
    case (raised e s')
    then show ?thesis using Suc.prems(2) by (simp add: emit_def)
  next
    case (empty s')
    then show ?thesis using Suc.prems(2) by (simp add: after_response_def emit_def)
  next
    case (unparsed choice rest s' e)
    then show ?thesis using Suc.prems(2) by (simp add: after_response_def emit_def)
  next
    case (failed choice rest s' tcs e)
    from dispatch_all_assistant_texts [OF failed(4) with_tool_calls_assistant_texts [OF Suc.prems(2)]]
    show ?thesis .
  next
    case (continued choice rest s' tcs a3)
    from dispatch_all_assistant_texts [OF continued(4) with_tool_calls_assistant_texts [OF Suc.prems(2)]]
    have "assistant_texts_nonempty (messages (conversation a3))" .
    from Suc.IH [OF continued(5) this] show ?thesis .
  next
    case (final choice rest s')
    then show ?thesis
      using Suc.prems(2) adds_assistant_texts(2) [OF Suc.prems(2), of "final_content choice"]
      by (auto simp: after_response_def emit_def)
  qed
qed

lemma chat_assistant_texts:
  assumes "assistant_texts_nonempty (messages (conversation a))"
  shows "assistant_texts_nonempty (messages (conversation (snd (chat a message))))"
proof -
  let ?a1 = "with_user_message a message"
  obtain r a2 where rl: "run_loop ?a1 = (r, a2)" by (cases "run_loop ?a1")
  have "assistant_texts_nonempty (messages (conversation ?a1))"
    using adds_assistant_texts(1) [OF assms] by (simp add: with_user_message_def)
  with rl have "assistant_texts_nonempty (messages (conversation a2))"
    unfolding run_loop_def by (rule run_iterations_assistant_texts)
  then show ?thesis using rl by (simp add: chat_unfold)
qed

lemma Agent_assistant_texts:
  "assistant_texts_nonempty
     (messages (conversation (Agent tools p mdl iters hist cb1 cb2 cap l cl s0)))"
  by (simp add: Agent_def ConversationHistory_def assistant_texts_nonempty_def
      assistant_text_ok_def system_message_def)

lemma reset_assistant_texts:
  "assistant_texts_nonempty (messages (conversation a)) \<Longrightarrow>
     assistant_texts_nonempty (messages (conversation (reset a)))"
  by (simp add: reset_def clear_def assistant_texts_nonempty_def list_all_iff)

text \<open>
  C2. In a history in which no assistant message has the empty string as content (the
  constructor builds such a history, and \<open>chat\<close>, \<open>reset\<close> and \<open>add_tool\<close> keep it so), a
  \<open>chat\<close> call whose loop ends in \<open>MaxIterationsError\<close> returns a text and raises
  nothing: the content of the most recent assistant message with non-null content,
  followed by the notice, when the history at that moment has such a message, and the
  fixed message that asks to rephrase otherwise.
\<close>

theorem exhaustion_returns_text:
  assumes "assistant_texts_nonempty (messages (conversation a))"
    and "fst (run_loop (with_user_message a message)) = Inl (Exn MaxIterationsError m c)"
  shows "fst (chat a message) =
           Inr (case newest_assistant_text (messages (conversation (snd (chat a message)))) of
                  Some c \<Rightarrow> c @ stopped_notice
                | None \<Rightarrow> rephrase_message)"
proof -
  have "assistant_texts_nonempty (messages (conversation (snd (chat a message))))"
    using assms(1) by (rule chat_assistant_texts)
  from exhaustion_text_newest [OF this] show ?thesis
    using assms(2) by (simp add: chat_unfold)
qed

lemma greeted_agent_eq:
  "greeted_agent =
     scripted_agent\<lparr>conversation :=
                      \<lparr>messages = [system_message ''sys'', user_message ''hi'',
                                   assistant_message ''hello''],
                       max_messages = 100\<rparr>,
                    client_state := 1,
                    trace := [BackendReturned [\<lparr>cm_content = Some ''hello'', cm_tool_calls = None\<rparr>]]\<rparr>"
  by (simp add: greeted_agent_def chat_unfold run_loop_def with_user_message_def
      scripted_agent_def Agent_def scripted_backend_def emit_def Let_def parse_tool_calls_def
      py_strip_def py_isspace_def py_find_def py_rfind_def add_user_message_def
      add_assistant_message_def trim_if_needed_def ConversationHistory_def)

lemma ref_str_empty_list: "ref_str (PList []) = ''[]''"
  by (simp add: ref_str_def)

lemma chat_greeted_agent_history:
  "messages (conversation (snd (chat greeted_agent ''again''))) =
     [system_message ''sys'', user_message ''hi'', assistant_message ''hello'',
      user_message ''again'',
      assistant_tool_calls_message
        [\<lparr>tc_id = ''c1'', tc_name = PStr ''nope'', tc_arguments = PStr ''{}''\<rparr>],
      tool_message ''c1'' (PStr ''nope'')
        (''Error: Unknown tool '' @ [CHR 0x27] @ ''nope'' @ [CHR 0x27] @ ''. Available tools: []'')]"
  by (simp add: greeted_agent_eq chat_unfold run_loop_def with_user_message_def
      scripted_agent_def Agent_def scripted_backend_def emit_def Let_def parse_tool_calls_def
      native_call_def dispatch_tool_call_def lookup_and_execute_def registry_get_def
      decode_args_def ref_lib_def ref_loads_empty_object unknown_tool_result_def py_format_def
      list_tools_def ref_str_empty_list truncate_result_def add_user_message_def
      add_assistant_tool_calls_def add_tool_result_def trim_if_needed_def observe_def)

lemma run_loop_greeted_agent:
  "fst (run_loop (with_user_message greeted_agent ''again''))
     = Inl (Exn MaxIterationsError ''Agent exceeded 1 iterations'' None)"
  by (simp add: greeted_agent_eq run_loop_def with_user_message_def
      scripted_agent_def Agent_def scripted_backend_def emit_def Let_def parse_tool_calls_def
      native_call_def dispatch_tool_call_def lookup_and_execute_def registry_get_def
      decode_args_def ref_lib_def ref_loads_empty_object unknown_tool_result_def py_format_def
      list_tools_def ref_str_empty_list truncate_result_def show_int_def show_nat.simps
      observe_def)

theorem exhaustion_returns_text_witness:
  "fst (chat greeted_agent ''again'')
     = Inr (''hello'' @ [CHR 0x0A, CHR 0x0A] @ ''[Stopped: reached maximum tool iterations]'')"
proof -
  have h1: "assistant_texts_nonempty (messages (conversation greeted_agent))"
    by (simp add: greeted_agent_eq assistant_texts_nonempty_def assistant_text_ok_def
        system_message_def user_message_def assistant_message_def)
  have n: "newest_assistant_text (messages (conversation (snd (chat greeted_agent ''again''))))
             = Some ''hello''"
    unfolding chat_greeted_agent_history
    by (simp add: newest_assistant_text_def system_message_def user_message_def
        assistant_message_def assistant_tool_calls_message_def tool_message_def)
  from exhaustion_returns_text [OF h1 run_loop_greeted_agent] show ?thesis
    unfolding n by (simp add: stopped_notice_def)
qed

subsection \<open>Dispatch of a call by name\<close>





subsection \<open>The JSON text fallback\<close>



















subsection \<open>Argument payloads that do not decode\<close>





subsection \<open>Correlation of tool results\<close>

lemma trim_below_cap:
  assumes "int (length (messages (trim_if_needed h))) < max_messages h"
  shows "trim_if_needed h = h"
proof (rule ccontr)
  assume ne: "trim_if_needed h \<noteq> h"
  then have over: "\<not> int (length (messages h)) \<le> max_messages h"
    by (auto simp: trim_if_needed_def)
  let ?S = "filter (\<lambda>m. msg_role m = System) (messages h)"
  let ?N = "filter (\<lambda>m. msg_role m \<noteq> System) (messages h)"
  have sum: "length ?S + length ?N = length (messages h)"
    by (rule sum_length_filter_compl)
  have m: "messages (trim_if_needed h)
             = ?S @ py_slice_from ?N (- (max_messages h - int (length ?S)))"
    using over by (simp add: trim_if_needed_def Let_def)
  have "int (length (?S @ py_slice_from ?N (- (max_messages h - int (length ?S)))))
          \<ge> max_messages h"
    using over sum by (auto simp: py_slice_from_def)
  with assms m show False by simp
qed

lemma append_below_cap:
  assumes "int (length (messages (trim_if_needed (h\<lparr>messages := messages h @ [m]\<rparr>))))
             < max_messages h"
  shows "messages (trim_if_needed (h\<lparr>messages := messages h @ [m]\<rparr>)) = messages h @ [m]"
  using trim_below_cap [of "h\<lparr>messages := messages h @ [m]\<rparr>"] assms by simp

lemma correlated_from_append:
  "correlated_from seen (xs @ ys)
     = (correlated_from seen xs \<and> correlated_from (seen @ concat (map invocation_ids xs)) ys)"
  by (induction xs arbitrary: seen) auto

lemma correlated_from_tool_results:
  "tool_results_for ids ms \<Longrightarrow> set ids \<subseteq> set seen \<Longrightarrow> correlated_from seen ms"
  by (induction ms arbitrary: seen)
    (auto simp: tool_results_for_def invocation_ids_def split: option.splits)

lemma tool_results_for_append:
  "tool_results_for ids (xs @ ys) = (tool_results_for ids xs \<and> tool_results_for ids ys)"
  by (simp add: tool_results_for_def)

lemma tool_results_for_mono:
  "tool_results_for ids ms \<Longrightarrow> set ids \<subseteq> set ids' \<Longrightarrow> tool_results_for ids' ms"
  by (auto simp: tool_results_for_def list_all_iff split: option.splits)

lemma dispatch_tool_call_untrimmed:
  assumes "dispatch_tool_call a tc = (r, a')"
    and "history_length a' < max_messages (conversation a')"
  shows "\<exists>suf. messages (conversation a') = messages (conversation a) @ suf
           \<and> tool_results_for [tc_id tc] suf"
proof (cases r)
  case (Inl e)
  with dispatch_tool_call_effect [OF assms(1)] have "conversation a' = conversation a"
    by simp
  then show ?thesis by (simp add: tool_results_for_def)
next
  case (Inr u)
  with dispatch_tool_call_effect [OF assms(1)] obtain c where
    c: "conversation a' = add_tool_result (tc_id tc) (tc_name tc) c (conversation a)"
    by auto
  have "messages (conversation a')
          = messages (conversation a) @ [tool_message (tc_id tc) (tc_name tc) c]"
    using assms(2) c append_below_cap [of "conversation a" "tool_message (tc_id tc) (tc_name tc) c"]
    by (simp add: add_tool_result_def history_length_def)
  moreover have "tool_results_for [tc_id tc] [tool_message (tc_id tc) (tc_name tc) c]"
    by (simp add: tool_results_for_def tool_message_def)
  ultimately show ?thesis by blast
qed

lemma dispatch_all_untrimmed:
  "dispatch_all a tcs = (r, a') \<Longrightarrow> history_length a' < max_messages (conversation a') \<Longrightarrow>
     \<exists>suf. messages (conversation a') = messages (conversation a) @ suf
        \<and> tool_results_for (map tc_id tcs) suf"
proof (induction tcs arbitrary: a)
  case Nil
  then show ?case by (simp add: tool_results_for_def)
next
  case (Cons tc tcs)
  obtain r1 a1 where d: "dispatch_tool_call a tc = (r1, a1)"
    by (cases "dispatch_tool_call a tc")
  show ?case
  proof (cases r1)
    case (Inl e)
    then have "a' = a1" using Cons.prems(1) d by simp
    with dispatch_tool_call_untrimmed [OF d] Cons.prems(2) obtain suf where
      "messages (conversation a') = messages (conversation a) @ suf"
      "tool_results_for [tc_id tc] suf"
      by blast
    then show ?thesis
      using tool_results_for_mono [of "[tc_id tc]" suf "map tc_id (tc # tcs)"] by auto
  next
    case (Inr u)
    then have da: "dispatch_all a1 tcs = (r, a')" using Cons.prems(1) d by simp
    from Cons.IH [OF da Cons.prems(2)] obtain suf2 where
      s2: "messages (conversation a') = messages (conversation a1) @ suf2"
          "tool_results_for (map tc_id tcs) suf2"
      by blast
    have "max_messages (conversation a') = max_messages (conversation a1)"
      using dispatch_all_effect [OF da] by (simp add: same_setup_def)
    then have "history_length a1 < max_messages (conversation a1)"
      using Cons.prems(2) s2(1) by (simp add: history_length_def)
    from dispatch_tool_call_untrimmed [OF d this] obtain suf1 where
      s1: "messages (conversation a1) = messages (conversation a) @ suf1"
          "tool_results_for [tc_id tc] suf1"
      by blast
    have "messages (conversation a') = messages (conversation a) @ (suf1 @ suf2)"
      using s1(1) s2(1) by simp
    moreover have "tool_results_for (map tc_id (tc # tcs)) (suf1 @ suf2)"
      using tool_results_for_mono [OF s1(2), of "map tc_id (tc # tcs)"]
        tool_results_for_mono [OF s2(2), of "map tc_id (tc # tcs)"]
      by (auto simp: tool_results_for_append)
    ultimately show ?thesis by blast
  qed
qed

lemma tool_calls_round_untrimmed:
  assumes "dispatch_all (with_tool_calls (after_response a s' resp) tcs) tcs = (r, a')"
    and "history_length a' < max_messages (conversation a')"
  shows "history_length a \<le> history_length a'
         \<and> (correlated_from [] (messages (conversation a))
              \<longrightarrow> correlated_from [] (messages (conversation a')))"
proof -
  let ?a2 = "with_tool_calls (after_response a s' resp) tcs"
  let ?m = "assistant_tool_calls_message tcs"
  from dispatch_all_untrimmed [OF assms] obtain suf where
    s: "messages (conversation a') = messages (conversation ?a2) @ suf"
       "tool_results_for (map tc_id tcs) suf"
    by blast
  have mm: "max_messages (conversation a') = max_messages (conversation ?a2)"
    using dispatch_all_effect [OF assms(1)] by (simp add: same_setup_def)
  have c2: "conversation ?a2 = add_assistant_tool_calls ?m (conversation a)"
    by (simp add: with_tool_calls_def after_response_def emit_def)
  have "int (length (messages (conversation ?a2))) < max_messages (conversation ?a2)"
    using assms(2) s(1) mm by (simp add: history_length_def)
  then have m2: "messages (conversation ?a2) = messages (conversation a) @ [?m]"
    using append_below_cap [of "conversation a" ?m]
    by (simp add: c2 add_assistant_tool_calls_def)
  have all: "messages (conversation a') = messages (conversation a) @ ?m # suf"
    using s(1) m2 by simp
  have "correlated_from seen (?m # suf)" for seen
    using correlated_from_tool_results [OF s(2), of "seen @ map tc_id tcs"]
    by (simp add: invocation_ids_def assistant_tool_calls_message_def)
  then show ?thesis
    using all by (simp add: correlated_from_append history_length_def)
qed

lemma assistant_message_untrimmed:
  assumes "int (length (messages (add_assistant_message c h))) < max_messages h"
  shows "messages (add_assistant_message c h) = messages h @ [assistant_message c]"
  using assms append_below_cap [of h "assistant_message c"]
  by (simp add: add_assistant_message_def)

lemma run_iterations_untrimmed:
  "run_iterations n tools a = (r, a') \<Longrightarrow> history_length a' < max_messages (conversation a') \<Longrightarrow>
     history_length a \<le> history_length a'
     \<and> (correlated_from [] (messages (conversation a))
          \<longrightarrow> correlated_from [] (messages (conversation a')))"
proof (induction n arbitrary: a)
  case 0
  then show ?case by simp
next
  case (Suc n)
  from Suc.prems(1) show ?case
  proof (cases rule: run_iterations_Suc_cases)
    case (raised e s')
    then show ?thesis by (simp add: emit_def history_length_def)
  next
    case (empty s')
    then show ?thesis by (simp add: after_response_def emit_def history_length_def)
  next
    case (unparsed choice rest s' e)
    then show ?thesis by (simp add: after_response_def emit_def history_length_def)
  next
    case (failed choice rest s' tcs e)
    from tool_calls_round_untrimmed [OF failed(4) Suc.prems(2)] show ?thesis .
  next
    case (continued choice rest s' tcs a3)
    from Suc.IH [OF continued(5) Suc.prems(2)] have
      ih: "history_length a3 \<le> history_length a'"
          "correlated_from [] (messages (conversation a3))
             \<longrightarrow> correlated_from [] (messages (conversation a'))"
      by simp_all
    have "max_messages (conversation a') = max_messages (conversation a3)"
      using run_iterations_effect [OF continued(5)] by (simp add: same_setup_def)
    with ih(1) Suc.prems(2) have "history_length a3 < max_messages (conversation a3)"
      by simp
    from tool_calls_round_untrimmed [OF continued(4) this] ih show ?thesis
      by auto
  next
    case (final choice rest s')
    show ?thesis
    proof (cases "final_content choice = []")
      case True
      with final(4) show ?thesis by (simp add: after_response_def emit_def history_length_def)
    next
      case False
      with final(4) have c: "conversation a'
          = add_assistant_message (final_content choice) (conversation a)"
        by (simp add: after_response_def emit_def)
      then have "messages (conversation a')
          = messages (conversation a) @ [assistant_message (final_content choice)]"
        using Suc.prems(2) assistant_message_untrimmed [of "final_content choice" "conversation a"]
        by (simp add: history_length_def)
      then show ?thesis
        by (simp add: correlated_from_append history_length_def assistant_message_def)
    qed
  qed
qed

lemma chat_untrimmed:
  assumes "history_length (snd (chat a message)) < max_messages (conversation a)"
    and "correlated_from [] (messages (conversation a))"
  shows "correlated_from [] (messages (conversation (snd (chat a message))))"
proof -
  let ?a1 = "with_user_message a message"
  obtain r a2 where rl: "run_loop ?a1 = (r, a2)" by (cases "run_loop ?a1")
  then have ri: "run_iterations (nat (max_iterations ?a1))
       (if length (registry ?a1) > 0 then Some (to_openai_tools (registry ?a1)) else None) ?a1 = (r, a2)"
    by (simp add: run_loop_def)
  have sc: "snd (chat a message) = a2" using rl by (simp add: chat_unfold)
  have mm: "max_messages (conversation a2) = max_messages (conversation a)"
    using run_iterations_effect [OF ri] with_user_message_effect [of a message]
    by (simp add: same_setup_def)
  have lt: "history_length a2 < max_messages (conversation a2)"
    using assms(1) sc mm by simp
  from run_iterations_untrimmed [OF ri lt] have
    g: "history_length ?a1 \<le> history_length a2"
       "correlated_from [] (messages (conversation ?a1))
          \<longrightarrow> correlated_from [] (messages (conversation a2))"
    by simp_all
  have "int (length (messages (add_user_message message (conversation a))))
          < max_messages (conversation a)"
    using g(1) lt mm by (simp add: history_length_def with_user_message_def)
  then have "messages (conversation ?a1) = messages (conversation a) @ [user_message message]"
    using append_below_cap [of "conversation a" "user_message message"]
    by (simp add: with_user_message_def add_user_message_def)
  then have "correlated_from [] (messages (conversation ?a1))"
    using assms(2) by (simp add: correlated_from_append user_message_def)
  with g(2) sc show ?thesis by simp
qed

lemma Agent_correlated:
  "correlated_from [] (messages (conversation (Agent tools p mdl iters hist cb1 cb2 cap l cl s0)))"
  by (simp add: Agent_def ConversationHistory_def system_message_def)

lemma correlated_from_system_only:
  "list_all (\<lambda>m. msg_role m = System) ms \<Longrightarrow> correlated_from seen ms"
  by (induction ms arbitrary: seen) (auto simp: invocation_ids_def)

lemma reset_correlated: "correlated_from [] (messages (conversation (reset a)))"
  by (simp add: reset_def clear_def correlated_from_system_only list_all_iff)

text \<open>
  C5, as the code has it. As long as nothing is trimmed (the history after the call is
  shorter than \<open>max_messages\<close>), \<open>chat\<close> keeps the history correlated: the id of every
  tool message is the id of at least one tool call of an assistant message before it.
  The constructor and \<open>reset\<close> give such a history (\<open>Agent_correlated\<close>,
  \<open>reset_correlated\<close>). \<open>add_tool_result\<close> checks nothing: below the cap it appends the
  tool message whatever the id.
\<close>

theorem tool_results_stay_correlated:
  "(history_length (snd (chat a message)) < max_messages (conversation a)
      \<and> correlated_from [] (messages (conversation a))
      \<longrightarrow> correlated_from [] (messages (conversation (snd (chat a message)))))
   \<and> (int (length (messages h)) < max_messages h
      \<longrightarrow> messages (add_tool_result i nm c h) = messages h @ [tool_message i nm c])"
proof (intro conjI impI)
  assume "history_length (snd (chat a message)) < max_messages (conversation a)
          \<and> correlated_from [] (messages (conversation a))"
  then show "correlated_from [] (messages (conversation (snd (chat a message))))"
    using chat_untrimmed [of a message] by simp
next
  assume "int (length (messages h)) < max_messages h"
  then show "messages (add_tool_result i nm c h) = messages h @ [tool_message i nm c]"
    by (simp add: add_tool_result_def trim_if_needed_def)
qed

lemma chat_unknown_tool_agent_history:
  "messages (conversation (snd (chat unknown_tool_agent ''hi''))) =
     [system_message ''sys'', user_message ''hi'',
      assistant_tool_calls_message
        [\<lparr>tc_id = ''c1'', tc_name = PStr ''nope'', tc_arguments = PStr ''{}''\<rparr>],
      tool_message ''c1'' (PStr ''nope'') unknown_nope,
      assistant_tool_calls_message
        [\<lparr>tc_id = ''c1'', tc_name = PStr ''nope'', tc_arguments = PStr ''{}''\<rparr>],
      tool_message ''c1'' (PStr ''nope'') unknown_nope]"
  by (simp add: chat_unfold run_loop_def with_user_message_def unknown_tool_agent_def
      Agent_def native_backend_def emit_def Let_def parse_tool_calls_def numeral_2_eq_2
      native_call_def dispatch_tool_call_def lookup_and_execute_def registry_get_def
      decode_args_def ref_lib_def ref_loads_empty_object unknown_tool_result_def py_format_def
      list_tools_def ref_str_empty_list truncate_result_def add_user_message_def
      add_assistant_tool_calls_def add_tool_result_def trim_if_needed_def
      ConversationHistory_def unknown_nope_def observe_def)

lemma chat_short_history_agent_history:
  "messages (conversation (snd (chat short_history_agent ''hi''))) =
     [system_message ''sys'', tool_message ''c1'' (PStr ''nope'') unknown_nope]"
  by (simp add: chat_unfold run_loop_def with_user_message_def short_history_agent_def
      Agent_def native_backend_def emit_def Let_def parse_tool_calls_def
      native_call_def dispatch_tool_call_def lookup_and_execute_def registry_get_def
      decode_args_def ref_lib_def ref_loads_empty_object unknown_tool_result_def py_format_def
      list_tools_def ref_str_empty_list truncate_result_def add_user_message_def
      add_assistant_tool_calls_def add_tool_result_def trim_if_needed_def
      ConversationHistory_def unknown_nope_def py_slice_from_def system_message_def
      user_message_def assistant_tool_calls_message_def tool_message_def observe_def)

text \<open>
  C5 as stated fails in three ways. A backend that repeats the id \<open>c1\<close> in two
  iterations leaves a tool message whose id matches two earlier tool calls. With
  \<open>max_messages = 2\<close> the trimming drops the assistant message and keeps its tool
  result, whose id then matches no earlier tool call. And \<open>add_tool_result\<close> appends a
  tool message with an id that was never emitted, and returns nothing else.
\<close>

theorem tool_result_correlation_counterexample:
  "\<not> correlated_once_from [] (messages (conversation (snd (chat unknown_tool_agent ''hi''))))
   \<and> \<not> correlated_from [] (messages (conversation (snd (chat short_history_agent ''hi''))))
   \<and> messages (add_tool_result ''ghost'' (PStr ''t'') ''r'' (ConversationHistory (Some ''s'') 100))
       = [system_message ''s'', tool_message ''ghost'' (PStr ''t'') ''r'']"
proof (intro conjI)
  show "\<not> correlated_once_from [] (messages (conversation (snd (chat unknown_tool_agent ''hi''))))"
    unfolding chat_unknown_tool_agent_history
    by (simp add: system_message_def user_message_def assistant_tool_calls_message_def
        tool_message_def invocation_ids_def)
  show "\<not> correlated_from [] (messages (conversation (snd (chat short_history_agent ''hi''))))"
    unfolding chat_short_history_agent_history
    by (simp add: system_message_def tool_message_def invocation_ids_def)
  show "messages (add_tool_result ''ghost'' (PStr ''t'') ''r'' (ConversationHistory (Some ''s'') 100))
       = [system_message ''s'', tool_message ''ghost'' (PStr ''t'') ''r'']"
    by (simp add: add_tool_result_def trim_if_needed_def ConversationHistory_def)
qed

theorem tool_results_stay_correlated_witness:
  "correlated_from [] (messages (conversation (snd (chat unknown_tool_agent ''hi''))))
   \<and> messages (add_tool_result ''ghost'' (PStr ''t'') ''r'' (ConversationHistory (Some ''s'') 100))
       = messages (ConversationHistory (Some ''s'') 100) @ [tool_message ''ghost'' (PStr ''t'') ''r'']"
proof -
  have h1: "history_length (snd (chat unknown_tool_agent ''hi''))
              < max_messages (conversation unknown_tool_agent)"
    unfolding history_length_def chat_unknown_tool_agent_history
    by (simp add: unknown_tool_agent_def Agent_def ConversationHistory_def)
  have h2: "correlated_from [] (messages (conversation unknown_tool_agent))"
    unfolding unknown_tool_agent_def by (rule Agent_correlated)
  have h3: "int (length (messages (ConversationHistory (Some ''s'') 100)))
              < max_messages (ConversationHistory (Some ''s'') 100)"
    by (simp add: ConversationHistory_def)
  from tool_results_stay_correlated
         [of unknown_tool_agent "''hi''" "ConversationHistory (Some ''s'') 100" "''ghost''"
             "PStr ''t''" "''r''"]
    h1 h2 h3
  show ?thesis by blast
qed

end
